theory Spec2Isabelle
  imports Complex_Main
begin

section \<open>AI Room Designer: retry, cache, rate limiter and the request service\<close>

text \<open>
  A shallow embedding of \<^verbatim>\<open>src/utils/apiUtils.ts\<close> and of the two versions of
  \<^verbatim>\<open>redesignRoom\<close> (the Firebase-callable one in \<^verbatim>\<open>src/services/geminiServices.tsx\<close>
  and the OpenRouter one with the daily quota and the rate limiter).

  Conventions of the embedding.
  \<^item> A finite TypeScript \<^verbatim>\<open>number\<close> held in a field or read from the clock is the
    \<^typ>\<open>real\<close> it denotes; \<^verbatim>\<open>Date.now()\<close> reads the field \<open>now\<close> of the state. The
    delay computation, where a power and a product can overflow, is carried out in
    double arithmetic (\<open>number\<close> below): rounding to nearest, infinities and NaN.
  \<^item> A JavaScript string is the list of its UTF-16 code units (\<^typ>\<open>nat list\<close>);
    \<open>js\<close> turns a literal into one.
  \<^item> A rejected promise or a \<^verbatim>\<open>throw\<close> is the \<open>Inl\<close> of a sum; an \<^verbatim>\<open>await\<close>ed
    operation is a function from the state to a result and the next state.
  \<^item> The clock advances only while \<^verbatim>\<open>sleep\<close> waits and while the network operation
    runs; everything else takes no time.
  \<^item> The platform is taken to work: local storage holds what this module wrote
    (\<^verbatim>\<open>JSON.parse\<close> does not throw) and the digest of \<^verbatim>\<open>crypto.subtle\<close> resolves.
\<close>

subsection \<open>Strings\<close>

type_synonym jsstring = "nat list"

definition js :: "string \<Rightarrow> jsstring" where
  "js s = map of_char s"

text \<open>\<^verbatim>\<open>String.prototype.includes\<close>: does \<open>sub\<close> occur in \<open>s\<close> as a contiguous run.\<close>

fun js_includes :: "jsstring \<Rightarrow> jsstring \<Rightarrow> bool" where
  "js_includes [] sub = (sub = [])"
| "js_includes (c # cs) sub = (take (length sub) (c # cs) = sub \<or> js_includes cs sub)"

text \<open>Template-literal rendering of a non-negative integer: its decimal digits.\<close>

fun digits :: "nat \<Rightarrow> jsstring" where
  "digits n = (if n < 10 then [48 + n] else digits (n div 10) @ [48 + n mod 10])"

declare digits.simps [simp del]

subsection \<open>Errors\<close>

text \<open>
  \<^verbatim>\<open>class APIError extends Error\<close> with \<open>message\<close>, \<open>status?\<close>, \<open>code?\<close> and
  \<open>retryable\<close>; every other \<^verbatim>\<open>Error\<close> object is \<open>Error message\<close>. An operation
  handed to \<open>withRetry\<close> rejects with one of these (its parameter is typed
  \<^verbatim>\<open>error: Error\<close>).
\<close>

datatype js_error =
    APIError jsstring "nat option" "jsstring option" bool
  | Error jsstring

fun message :: "js_error \<Rightarrow> jsstring" where
  "message (APIError m st c r) = m"
| "message (Error m) = m"

text \<open>What a call can throw: an error object, or the value \<^verbatim>\<open>undefined\<close>.\<close>

datatype thrown = Thrown js_error | ThrownUndefined

subsection \<open>Retry with exponential backoff\<close>

record RetryOptions =
  maxAttempts :: real
  baseDelay :: real
  maxDelay :: real
  backoffFactor :: real

definition defaultRetryOptions :: RetryOptions where
  "defaultRetryOptions =
     \<lparr>maxAttempts = 3, baseDelay = 1000, maxDelay = 10000, backoffFactor = 2\<rparr>"

text \<open>\<^verbatim>\<open>Partial<RetryOptions>\<close>: every field may be missing.\<close>

record PartialRetryOptions =
  maxAttempts_opt :: "real option"
  baseDelay_opt :: "real option"
  maxDelay_opt :: "real option"
  backoffFactor_opt :: "real option"

text \<open>The object spread \<^verbatim>\<open>{ ...defaultRetryOptions, ...options }\<close>.\<close>

definition merge_retry :: "RetryOptions \<Rightarrow> PartialRetryOptions \<Rightarrow> RetryOptions" where
  "merge_retry d p =
     \<lparr>maxAttempts = (case maxAttempts_opt p of None \<Rightarrow> maxAttempts d | Some v \<Rightarrow> v),
      baseDelay = (case baseDelay_opt p of None \<Rightarrow> baseDelay d | Some v \<Rightarrow> v),
      maxDelay = (case maxDelay_opt p of None \<Rightarrow> maxDelay d | Some v \<Rightarrow> v),
      backoffFactor = (case backoffFactor_opt p of None \<Rightarrow> backoffFactor d | Some v \<Rightarrow> v)\<rparr>"

text \<open>The options object \<^verbatim>\<open>{ maxAttempts: m }\<close>.\<close>

definition only_maxAttempts :: "real \<Rightarrow> PartialRetryOptions" where
  "only_maxAttempts m =
     \<lparr>maxAttempts_opt = Some m, baseDelay_opt = None, maxDelay_opt = None,
      backoffFactor_opt = None\<rparr>"

text \<open>
  The value of an arithmetic expression: a finite double (the real it denotes), an
  infinity, or NaN. The sign of zero is not kept. The fields of \<open>RetryOptions\<close> hold
  finite doubles, each given as the real it denotes.
\<close>

datatype number = Num real | PosInfinity | NegInfinity | NaN

text \<open>Rounding to the nearest integer, ties to the even one.\<close>

definition rne :: "real \<Rightarrow> int" where
  "rne x =
     (let f = \<lfloor>x\<rfloor>; d = x - of_int f
      in if d < 1 / 2 then f else if 1 / 2 < d then f + 1 else if even f then f else f + 1)"

text \<open>
  The double nearest to a real (IEEE 754 binary64, round to nearest, ties to even): 53
  significant bits, the least exponent of the last bit \<open>- 1074\<close>, and an infinity when
  the rounded value reaches \<open>2 ^ 1024\<close>.
\<close>

definition round_double :: "real \<Rightarrow> number" where
  "round_double v =
     (if v = 0 then Num 0
      else (let e = \<lfloor>log 2 \<bar>v\<bar>\<rfloor>;
                q = max (e - 52) (- 1074);
                r = of_int (rne (v / power_int 2 q)) * power_int 2 q
            in if 2 ^ 1024 \<le> r then PosInfinity
               else if r \<le> - (2 ^ 1024) then NegInfinity
               else Num r))"

text \<open>
  \<^verbatim>\<open>Math.pow\<close> of a finite base and an integer exponent: 1 for the exponent 0; for the
  base 0, 0 or infinity; otherwise the power, rounded (the language leaves the accuracy
  of this case to the engine; the model takes the correctly rounded value).
\<close>

definition js_pow :: "real \<Rightarrow> int \<Rightarrow> number" where
  "js_pow base exponent =
     (if exponent = 0 then Num 1
      else if base = 0 then (if 0 < exponent then Num 0 else PosInfinity)
      else round_double (power_int base exponent))"

text \<open>The product \<^verbatim>\<open>x * y\<close> of a finite \<open>x\<close> and any \<open>y\<close>.\<close>

fun js_times :: "real \<Rightarrow> number \<Rightarrow> number" where
  "js_times x (Num y) = round_double (x * y)"
| "js_times x PosInfinity = (if x = 0 then NaN else if 0 < x then PosInfinity else NegInfinity)"
| "js_times x NegInfinity = (if x = 0 then NaN else if 0 < x then NegInfinity else PosInfinity)"
| "js_times x NaN = NaN"

text \<open>\<^verbatim>\<open>Math.min(x, y)\<close> for any \<open>x\<close> and a finite \<open>y\<close>.\<close>

fun js_min :: "number \<Rightarrow> real \<Rightarrow> number" where
  "js_min (Num x) y = Num (min x y)"
| "js_min PosInfinity y = Num y"
| "js_min NegInfinity y = NegInfinity"
| "js_min NaN y = NaN"

text \<open>
  \<^verbatim>\<open>Math.min(baseDelay * Math.pow(backoffFactor, attempt - 1), maxDelay)\<close>. The attempt
  is the integer loop counter of \<open>withRetry\<close>.
\<close>

definition calculateDelay :: "int \<Rightarrow> RetryOptions \<Rightarrow> number" where
  "calculateDelay attempt options =
     (let delay = js_times (baseDelay options) (js_pow (backoffFactor options) (attempt - 1))
      in js_min delay (maxDelay options))"

fun isRetryableError :: "js_error \<Rightarrow> bool" where
  "isRetryableError (APIError m st c r) = r"
| "isRetryableError (Error m) = (js_includes m (js ''network'') \<or> js_includes m (js ''fetch''))"

text \<open>
  The \<^verbatim>\<open>for\<close> loop of \<open>withRetry\<close>. \<open>operation\<close> is the awaited call, \<open>sleep\<close> the
  awaited \<^verbatim>\<open>sleep(delay)\<close>; \<open>lastError\<close> is \<open>None\<close> while the variable is unassigned.
  The \<^verbatim>\<open>console.warn\<close> is not modelled.
\<close>

function withRetry_loop ::
  "('s \<Rightarrow> (js_error + 'a) \<times> 's) \<Rightarrow> (number \<Rightarrow> 's \<Rightarrow> 's) \<Rightarrow> RetryOptions \<Rightarrow> int \<Rightarrow>
   js_error option \<Rightarrow> 's \<Rightarrow> (thrown + 'a) \<times> 's" where
  "withRetry_loop operation sleep config attempt lastError s =
     (if of_int attempt \<le> maxAttempts config then
        (case operation s of
           (Inr v, s') \<Rightarrow> (Inr v, s')
         | (Inl error, s') \<Rightarrow>
             if \<not> isRetryableError error \<or> of_int attempt = maxAttempts config
             then (Inl (Thrown error), s')
             else withRetry_loop operation sleep config (attempt + 1) (Some error)
                    (sleep (calculateDelay attempt config) s'))
      else (case lastError of
              None \<Rightarrow> (Inl ThrownUndefined, s)
            | Some e \<Rightarrow> (Inl (Thrown e), s)))"
  by pat_completeness auto
termination
  by (relation "measure (\<lambda>(operation, sleep, config, attempt, lastError, s).
                  nat (\<lfloor>maxAttempts config\<rfloor> + 1 - attempt))")
     (auto simp: le_floor_iff)

declare withRetry_loop.simps [simp del]

definition withRetry ::
  "('s \<Rightarrow> (js_error + 'a) \<times> 's) \<Rightarrow> (number \<Rightarrow> 's \<Rightarrow> 's) \<Rightarrow> PartialRetryOptions \<Rightarrow>
   's \<Rightarrow> (thrown + 'a) \<times> 's" where
  "withRetry operation sleep options s =
     (let config = merge_retry defaultRetryOptions options
      in withRetry_loop operation sleep config 1 None s)"

text \<open>
  A spy around an operation and around \<open>sleep\<close>, as a mock function of the test suite
  is: it records the outcome of every invocation and every delay waited, in order.
\<close>

record ('s, 'a) spy =
  results :: "(js_error + 'a) list"
  sleeps :: "number list"
  inner :: 's

definition new_spy :: "'s \<Rightarrow> ('s, 'a) spy" where
  "new_spy s = \<lparr>results = [], sleeps = [], inner = s\<rparr>"

definition spy_on ::
  "('s \<Rightarrow> (js_error + 'a) \<times> 's) \<Rightarrow> ('s, 'a) spy \<Rightarrow> (js_error + 'a) \<times> ('s, 'a) spy" where
  "spy_on operation sp =
     (case operation (inner sp) of
        (r, s') \<Rightarrow> (r, sp\<lparr>results := results sp @ [r], inner := s'\<rparr>))"

definition spy_sleep :: "(number \<Rightarrow> 's \<Rightarrow> 's) \<Rightarrow> number \<Rightarrow> ('s, 'a) spy \<Rightarrow> ('s, 'a) spy" where
  "spy_sleep sleep d sp = sp\<lparr>sleeps := sleeps sp @ [d], inner := sleep d (inner sp)\<rparr>"

subsection \<open>The in-memory cache\<close>

record 'v entry =
  data :: 'v
  timestamp :: real
  ttl :: real

type_synonym 'v Cache = "jsstring \<rightharpoonup> 'v entry"

text \<open>\<^verbatim>\<open>Cache.set(key, data, ttl)\<close> at clock reading \<open>t\<close>.\<close>

definition cache_set :: "real \<Rightarrow> jsstring \<Rightarrow> 'v \<Rightarrow> real \<Rightarrow> 'v Cache \<Rightarrow> 'v Cache" where
  "cache_set t key d l c = c(key \<mapsto> \<lparr>data = d, timestamp = t, ttl = l\<rparr>)"

text \<open>\<^verbatim>\<open>Cache.get(key)\<close> at clock reading \<open>t\<close>: the value or \<^verbatim>\<open>null\<close>, and the cache after.\<close>

definition cache_get :: "real \<Rightarrow> jsstring \<Rightarrow> 'v Cache \<Rightarrow> 'v option \<times> 'v Cache" where
  "cache_get t key c =
     (case c key of
        None \<Rightarrow> (None, c)
      | Some e \<Rightarrow>
          if t - timestamp e > ttl e then (None, c(key := None))
          else (Some (data e), c))"

text \<open>\<^verbatim>\<open>Array.prototype.join\<close> on an array of strings.\<close>

fun join :: "jsstring \<Rightarrow> jsstring list \<Rightarrow> jsstring" where
  "join sep [] = []"
| "join sep [p] = p"
| "join sep (p # q # ps) = p @ sep @ join sep (q # ps)"

definition createCacheKey :: "jsstring \<Rightarrow> jsstring list \<Rightarrow> jsstring" where
  "createCacheKey prefix parts = prefix @ js '':'' @ join (js '':'') parts"

subsection \<open>The sliding-window rate limiter\<close>

record RateLimiter =
  requests :: "real list"
  maxRequests :: real
  windowMs :: real

definition canMakeRequest :: "real \<Rightarrow> RateLimiter \<Rightarrow> bool \<times> RateLimiter" where
  "canMakeRequest t rl =
     (let rs = filter (\<lambda>time. t - time < windowMs rl) (requests rl)
      in (real (length rs) < maxRequests rl, rl\<lparr>requests := rs\<rparr>))"

definition recordRequest :: "real \<Rightarrow> RateLimiter \<Rightarrow> RateLimiter" where
  "recordRequest t rl = rl\<lparr>requests := requests rl @ [t]\<rparr>"

definition getWaitTime :: "real \<Rightarrow> RateLimiter \<Rightarrow> real" where
  "getWaitTime t rl =
     (if requests rl = [] then 0
      else (let oldestRequest = fold min (tl (requests rl)) (hd (requests rl));
                waitTime = windowMs rl - (t - oldestRequest)
            in max 0 waitTime))"

text \<open>
  A sequence of calls on one limiter, each with the clock reading at which it is made:
  the state after them, and the timestamps that \<open>recordRequest\<close> was called with.
\<close>

datatype limiter_call = CanMakeRequest | RecordRequest

fun limiter_step :: "real \<times> limiter_call \<Rightarrow> RateLimiter \<Rightarrow> RateLimiter" where
  "limiter_step (t, CanMakeRequest) rl = snd (canMakeRequest t rl)"
| "limiter_step (t, RecordRequest) rl = recordRequest t rl"

fun recorded :: "(real \<times> limiter_call) list \<Rightarrow> real list" where
  "recorded [] = []"
| "recorded ((t, CanMakeRequest) # calls) = recorded calls"
| "recorded ((t, RecordRequest) # calls) = t # recorded calls"

subsection \<open>Base64 and the cache key\<close>

text \<open>
  \<^verbatim>\<open>btoa\<close> of the browser: base64 of a string of code units below 256; it throws
  on any other string (the text of that exception depends on the engine).
\<close>

definition b64char :: "nat \<Rightarrow> nat" where
  "b64char n =
     (if n < 26 then 65 + n
      else if n < 52 then 97 + (n - 26)
      else if n < 62 then 48 + (n - 52)
      else if n = 62 then 43 else 47)"

fun b64enc :: "nat list \<Rightarrow> nat list" where
  "b64enc [] = []"
| "b64enc [a] = [b64char (a div 4), b64char ((a mod 4) * 16), 61, 61]"
| "b64enc [a, b] =
     [b64char (a div 4), b64char ((a mod 4) * 16 + b div 16), b64char ((b mod 16) * 4), 61]"
| "b64enc (a # b # c # rest) =
     [b64char (a div 4), b64char ((a mod 4) * 16 + b div 16),
      b64char ((b mod 16) * 4 + c div 64), b64char (c mod 64)] @ b64enc rest"

definition btoa :: "jsstring \<Rightarrow> js_error + jsstring" where
  "btoa s =
     (if list_ex (\<lambda>c. 255 < c) s then Inl (Error (js ''InvalidCharacterError''))
      else Inr (b64enc s))"

text \<open>\<^verbatim>\<open>generateImageHash\<close> of the Firebase version: the first 100 characters.\<close>

definition generateImageHash :: "jsstring \<Rightarrow> jsstring" where
  "generateImageHash base64Data = take 100 base64Data"

text \<open>
  \<^verbatim>\<open>generateImageHash\<close> of the OpenRouter version. \<open>digest\<close> stands for the platform's
  \<^verbatim>\<open>TextEncoder\<close> and \<^verbatim>\<open>crypto.subtle.digest('SHA-256', _)\<close>, giving the bytes of the
  hash; the hexadecimal rendering and the truncations are the repository's.
\<close>

definition hexdigit :: "nat \<Rightarrow> nat" where
  "hexdigit n = (if n < 10 then 48 + n else 87 + n)"

fun toString16 :: "nat \<Rightarrow> jsstring" where
  "toString16 n =
     (if n < 16 then [hexdigit n] else toString16 (n div 16) @ [hexdigit (n mod 16)])"

declare toString16.simps [simp del]

definition padStart2 :: "jsstring \<Rightarrow> jsstring" where
  "padStart2 s = replicate (2 - length s) 48 @ s"

definition generateImageHash_or :: "(jsstring \<Rightarrow> nat list) \<Rightarrow> jsstring \<Rightarrow> jsstring" where
  "generateImageHash_or digest base64Data =
     (let hashArray = digest (take 1000 base64Data)
      in take 16 (concat (map (\<lambda>b. padStart2 (toString16 b)) hashArray)))"

definition createOptimizedPrompt :: "jsstring \<Rightarrow> jsstring" where
  "createOptimizedPrompt userPrompt =
     js ''Transform this room with: '' @ take 100 userPrompt @
     js ''. Keep layout, change style only.''"

text \<open>The key as each version of \<open>redesignRoom\<close> derives it (\<open>Inl\<close> when \<open>btoa\<close> throws).\<close>

definition cacheKey :: "jsstring \<Rightarrow> jsstring \<Rightarrow> js_error + jsstring" where
  "cacheKey base64ImageData prompt =
     (let imageHash = generateImageHash base64ImageData
      in case btoa prompt of
           Inl e \<Rightarrow> Inl e
         | Inr enc \<Rightarrow> Inr (createCacheKey (js ''room-redesign'') [imageHash, take 20 enc]))"

definition cacheKey_or ::
  "(jsstring \<Rightarrow> nat list) \<Rightarrow> jsstring \<Rightarrow> jsstring \<Rightarrow> js_error + jsstring" where
  "cacheKey_or digest base64ImageData prompt =
     (let optimizedPrompt = createOptimizedPrompt prompt;
          imageHash = generateImageHash_or digest base64ImageData
      in case btoa optimizedPrompt of
           Inl e \<Rightarrow> Inl e
         | Inr enc \<Rightarrow> Inr (createCacheKey (js ''room-redesign'') [imageHash, take 20 enc]))"

subsection \<open>The state the request service works on\<close>

text \<open>
  \<^verbatim>\<open>DailyUsage\<close> as stored under \<^verbatim>\<open>gemini_daily_usage\<close>. The date string
  \<^verbatim>\<open>new Date().toISOString().split('T')[0]\<close> is the UTC day; it is modelled by the
  number of that day, which determines the string and is determined by it.
\<close>

record DailyUsage =
  date :: int
  count :: int

text \<open>
  The module-level singletons (\<open>cache\<close>, \<open>rateLimiter\<close>), the entry of local storage
  (\<open>None\<close> when \<^verbatim>\<open>getItem\<close> gives \<^verbatim>\<open>null\<close>), the clock, and the number of times the
  network operation has been invoked so far.
\<close>

record world =
  now :: real
  cache :: "jsstring Cache"
  rateLimiter :: RateLimiter
  localStorage :: "DailyUsage option"
  invocations :: nat

text \<open>\<^verbatim>\<open>new RateLimiter()\<close> with its default arguments.\<close>

definition new_RateLimiter :: RateLimiter where
  "new_RateLimiter = \<lparr>requests = [], maxRequests = 10, windowMs = 60000\<rparr>"

text \<open>
  \<^verbatim>\<open>await sleep(ms)\<close>, that is \<^verbatim>\<open>setTimeout(resolve, ms)\<close> in a browser: the delay is
  converted to a 32-bit integer (NaN and the infinities to 0, anything else truncated
  and wrapped), a negative one counts as 0, and the timer fires after that many
  milliseconds.
\<close>

fun timeout_ms :: "number \<Rightarrow> real" where
  "timeout_ms (Num d) =
     (let t = (if 0 \<le> d then \<lfloor>d\<rfloor> else - \<lfloor>- d\<rfloor>);
          i = (t + 2 ^ 31) mod 2 ^ 32 - 2 ^ 31
      in of_int (max 0 i))"
| "timeout_ms PosInfinity = 0"
| "timeout_ms NegInfinity = 0"
| "timeout_ms NaN = 0"

definition sleep :: "number \<Rightarrow> world \<Rightarrow> world" where
  "sleep ms w = w\<lparr>now := now w + timeout_ms ms\<rparr>"

definition checkRateLimit :: "world \<Rightarrow> (js_error + unit) \<times> world" where
  "checkRateLimit w =
     (case canMakeRequest (now w) (rateLimiter w) of
        (ok, rl) \<Rightarrow>
          if \<not> ok then
            (let waitTime = getWaitTime (now w) rl
             in (Inl (APIError
                       (js ''Rate limit exceeded. Please wait '' @
                        digits (nat \<lceil>waitTime / 1000\<rceil>) @
                        js '' seconds before trying again.'')
                       (Some 429) (Some (js ''RATE_LIMIT_EXCEEDED'')) True),
                 w\<lparr>rateLimiter := rl\<rparr>))
          else (Inr (), w\<lparr>rateLimiter := recordRequest (now w) rl\<rparr>))"

subsection \<open>The daily quota (OpenRouter version)\<close>

text \<open>The source fixes the limit; the functions below take it as a parameter.\<close>

definition DAILY_REQUEST_LIMIT :: nat where
  "DAILY_REQUEST_LIMIT = 5"

definition today :: "real \<Rightarrow> int" where
  "today t = \<lfloor>t / 86400000\<rfloor>"

definition getDailyUsage :: "world \<Rightarrow> DailyUsage \<times> world" where
  "getDailyUsage w =
     (let newUsage = \<lparr>date = today (now w), count = 0\<rparr>;
          reset = (newUsage, w\<lparr>localStorage := Some newUsage\<rparr>)
      in case localStorage w of
           Some usage \<Rightarrow> if date usage = today (now w) then (usage, w) else reset
         | None \<Rightarrow> reset)"

definition incrementDailyUsage :: "world \<Rightarrow> world" where
  "incrementDailyUsage w =
     (case getDailyUsage w of
        (usage, w1) \<Rightarrow> w1\<lparr>localStorage := Some (usage\<lparr>count := count usage + 1\<rparr>)\<rparr>)"

definition quota_error :: "nat \<Rightarrow> js_error" where
  "quota_error limit =
     APIError
       (js ''Daily limit reached ('' @ digits limit @
        js '' requests). This helps preserve your free API quota. Please try again tomorrow or upgrade to a paid plan for unlimited usage.'')
       (Some 429) (Some (js ''DAILY_QUOTA_EXCEEDED'')) False"

definition checkDailyQuota :: "nat \<Rightarrow> world \<Rightarrow> (js_error + unit) \<times> world" where
  "checkDailyQuota limit w =
     (case getDailyUsage w of
        (usage, w1) \<Rightarrow>
          if count usage \<ge> int limit then (Inl (quota_error limit), w1) else (Inr (), w1))"

subsection \<open>Options of \<open>redesignRoom\<close>\<close>

record RedesignOptions =
  useCache_opt :: "bool option"
  cacheTimeMs_opt :: "real option"
  maxRetries_opt :: "real option"

record RedesignConfig =
  useCache :: bool
  cacheTimeMs :: real
  maxRetries :: real

definition DEFAULT_REDESIGN_OPTIONS :: RedesignConfig where
  "DEFAULT_REDESIGN_OPTIONS = \<lparr>useCache = True, cacheTimeMs = 86400000, maxRetries = 2\<rparr>"

definition DEFAULT_REDESIGN_OPTIONS_or :: RedesignConfig where
  "DEFAULT_REDESIGN_OPTIONS_or = \<lparr>useCache = True, cacheTimeMs = 86400000, maxRetries = 1\<rparr>"

text \<open>The object spread \<^verbatim>\<open>{ ...DEFAULT_REDESIGN_OPTIONS, ...options }\<close>.\<close>

definition merge_redesign :: "RedesignConfig \<Rightarrow> RedesignOptions \<Rightarrow> RedesignConfig" where
  "merge_redesign d p =
     \<lparr>useCache = (case useCache_opt p of None \<Rightarrow> useCache d | Some v \<Rightarrow> v),
      cacheTimeMs = (case cacheTimeMs_opt p of None \<Rightarrow> cacheTimeMs d | Some v \<Rightarrow> v),
      maxRetries = (case maxRetries_opt p of None \<Rightarrow> maxRetries d | Some v \<Rightarrow> v)\<rparr>"

definition no_options :: RedesignOptions where
  "no_options = \<lparr>useCache_opt = None, cacheTimeMs_opt = None, maxRetries_opt = None\<rparr>"

text \<open>
  The lookup \<^verbatim>\<open>if (config.useCache) { cachedResult = cache.get(cacheKey); if (cachedResult)
  return cachedResult }\<close>: the value to return, if any, and the state after. A cached
  empty string is falsy and is not returned.
\<close>

definition cache_lookup :: "RedesignConfig \<Rightarrow> jsstring \<Rightarrow> world \<Rightarrow> jsstring option \<times> world" where
  "cache_lookup config key w =
     (if useCache config then
        (case cache_get (now w) key (cache w) of
           (cachedResult, c) \<Rightarrow>
             (case cachedResult of
                Some v \<Rightarrow> if v \<noteq> [] then (Some v, w\<lparr>cache := c\<rparr>) else (None, w\<lparr>cache := c\<rparr>)
              | None \<Rightarrow> (None, w\<lparr>cache := c\<rparr>)))
      else (None, w))"

text \<open>\<^verbatim>\<open>if (config.useCache && config.cacheTimeMs) cache.set(cacheKey, result, config.cacheTimeMs)\<close>.\<close>

definition cache_store :: "RedesignConfig \<Rightarrow> jsstring \<Rightarrow> jsstring \<Rightarrow> world \<Rightarrow> world" where
  "cache_store config key result w =
     (if useCache config \<and> cacheTimeMs config \<noteq> 0
      then w\<lparr>cache := cache_set (now w) key result (cacheTimeMs config) (cache w)\<rparr>
      else w)"

subsection \<open>\<open>redesignRoom\<close>, Firebase version (\<^verbatim>\<open>src/services/geminiServices.tsx\<close>)\<close>

text \<open>
  What one call of \<^verbatim>\<open>generateRoomDesignFunction\<close> and the canvas give: a rejection
  with a value other than \<^verbatim>\<open>null\<close> and \<^verbatim>\<open>undefined\<close> (with the \<open>code\<close> property of
  that value, if it has one); a rejection with \<^verbatim>\<open>null\<close> or \<^verbatim>\<open>undefined\<close> (with the
  message of the \<^verbatim>\<open>TypeError\<close> that the engine raises when \<^verbatim>\<open>error.code\<close> is read
  from it); or the returned \<open>success\<close> and \<open>suggestions\<close> with the PNG drawn from them
  (\<open>None\<close> when the canvas has no 2d context).
\<close>

datatype callable_outcome =
    Rejected "jsstring option"
  | RejectedNullish jsstring
  | Returned bool jsstring "jsstring option"

text \<open>The \<^verbatim>\<open>catch (error: any)\<close> block for a caught value other than \<^verbatim>\<open>null\<close> and
  \<^verbatim>\<open>undefined\<close>: the \<open>code\<close> of the value, and the value itself when it is an
  \<open>APIError\<close>.\<close>

definition generateDesign_catch :: "jsstring option \<Rightarrow> js_error option \<Rightarrow> js_error" where
  "generateDesign_catch code apiError =
     (if code = Some (js ''functions/unauthenticated'') then
        APIError (js ''Please sign in to generate designs'') (Some 401)
          (Some (js ''UNAUTHENTICATED'')) False
      else if code = Some (js ''functions/resource-exhausted'') then
        APIError (js ''Daily generation limit reached. Please try again tomorrow.'') (Some 429)
          (Some (js ''QUOTA_EXCEEDED'')) False
      else if code = Some (js ''functions/invalid-argument'') then
        APIError (js ''Invalid input provided. Please check your image and prompt.'') (Some 400)
          (Some (js ''INVALID_INPUT'')) False
      else (case apiError of
              Some e \<Rightarrow> e
            | None \<Rightarrow>
                APIError (js ''An unexpected error occurred while generating the design'')
                  (Some 500) (Some (js ''UNKNOWN_ERROR'')) True))"

text \<open>
  The \<^verbatim>\<open>try\<close> block followed by the \<^verbatim>\<open>catch\<close> block. On \<^verbatim>\<open>null\<close> or \<^verbatim>\<open>undefined\<close>
  the first statement of the \<^verbatim>\<open>catch\<close> block, which reads \<^verbatim>\<open>error.code\<close>, raises a
  \<^verbatim>\<open>TypeError\<close>, and that is what \<open>generateDesign\<close> rejects with.
\<close>

fun generateDesign_result :: "callable_outcome \<Rightarrow> js_error + jsstring" where
  "generateDesign_result (Rejected code) = Inl (generateDesign_catch code None)"
| "generateDesign_result (RejectedNullish typeErrorMessage) = Inl (Error typeErrorMessage)"
| "generateDesign_result (Returned success suggestions png) =
     (if \<not> success \<or> suggestions = [] then
        Inl (generateDesign_catch (Some (js ''GENERATION_FAILED''))
               (Some (APIError (js ''Failed to generate design suggestions'') (Some 500)
                        (Some (js ''GENERATION_FAILED'')) True)))
      else (case png of
              Some imageData \<Rightarrow> Inr imageData
            | None \<Rightarrow>
                Inl (generateDesign_catch (Some (js ''CANVAS_ERROR''))
                       (Some (APIError (js ''Failed to create design visualization'') (Some 500)
                                (Some (js ''CANVAS_ERROR'')) True)))))"

text \<open>
  One invocation of \<open>generateDesign\<close>. The environment \<open>env\<close> gives, for the \<open>n\<close>-th
  invocation, what the backend answers and how long the call takes.
\<close>

definition generateDesign ::
  "(nat \<Rightarrow> callable_outcome \<times> real) \<Rightarrow> world \<Rightarrow> (js_error + jsstring) \<times> world" where
  "generateDesign env w =
     (case env (invocations w) of
        (outcome, elapsed) \<Rightarrow>
          (generateDesign_result outcome,
           w\<lparr>invocations := Suc (invocations w), now := now w + elapsed\<rparr>))"

definition redesignRoom ::
  "(nat \<Rightarrow> callable_outcome \<times> real) \<Rightarrow> jsstring \<Rightarrow> jsstring \<Rightarrow> jsstring \<Rightarrow>
   RedesignOptions \<Rightarrow> world \<Rightarrow> (thrown + jsstring) \<times> world" where
  "redesignRoom env base64ImageData mimeType prompt options w =
     (let config = merge_redesign DEFAULT_REDESIGN_OPTIONS options
      in case cacheKey base64ImageData prompt of
           Inl e \<Rightarrow> (Inl (Thrown e), w)
         | Inr key \<Rightarrow>
             (case cache_lookup config key w of
                (Some cachedResult, w1) \<Rightarrow> (Inr cachedResult, w1)
              | (None, w1) \<Rightarrow>
                  (case withRetry (generateDesign env) sleep
                          (only_maxAttempts (maxRetries config)) w1 of
                     (Inl t, w2) \<Rightarrow> (Inl t, w2)
                   | (Inr result, w2) \<Rightarrow> (Inr result, cache_store config key result w2))))"

subsection \<open>\<open>redesignRoom\<close>, OpenRouter version (quota and rate limiter)\<close>

text \<open>
  What one run of the \<^verbatim>\<open>try\<close> block of \<open>generateImage\<close> meets: no API key; a rejection
  of \<^verbatim>\<open>fetch\<close> or of \<^verbatim>\<open>response.json()\<close> with an \<^verbatim>\<open>Error\<close> of the given message, or
  with a value that is no \<^verbatim>\<open>Error\<close>; a response that is not ok (status and
  \<^verbatim>\<open>errorData.error?.message\<close>); a response without content; a canvas without 2d
  context; or the PNG drawn from the answer.
\<close>

datatype fetch_outcome =
    MissingApiKey
  | FetchRejected jsstring
  | FetchRejectedNonError
  | NotOk nat "jsstring option"
  | NoContent
  | NoCanvasContext
  | Rendered jsstring

fun generateImage_try :: "fetch_outcome \<Rightarrow> thrown + jsstring" where
  "generateImage_try MissingApiKey =
     Inl (Thrown (APIError
       (js ''VITE_API_KEY environment variable not set. Please add your OpenRouter API key to the .env file.'')
       (Some 401) (Some (js ''MISSING_API_KEY'')) False))"
| "generateImage_try (FetchRejected m) = Inl (Thrown (Error m))"
| "generateImage_try FetchRejectedNonError = Inl ThrownUndefined"
| "generateImage_try (NotOk status errorMessage) =
     Inl (Thrown (APIError
       (case errorMessage of
          Some m \<Rightarrow> if m \<noteq> [] then m else js ''API request failed with status '' @ digits status
        | None \<Rightarrow> js ''API request failed with status '' @ digits status)
       (Some status) (Some (js ''OPENROUTER_API_ERROR'')) (status \<ge> 500)))"
| "generateImage_try NoContent =
     Inl (Thrown (APIError (js ''No response generated. Please try again.'') (Some 500)
       (Some (js ''NO_RESPONSE_GENERATED'')) True))"
| "generateImage_try NoCanvasContext =
     Inl (Thrown (APIError (js ''Failed to create design visualization'') (Some 500)
       (Some (js ''CANVAS_ERROR'')) True))"
| "generateImage_try (Rendered imageData) = Inr imageData"

fun generateImage_catch :: "thrown \<Rightarrow> js_error" where
  "generateImage_catch (Thrown (APIError m st c r)) = APIError m st c r"
| "generateImage_catch (Thrown (Error m)) =
     (if js_includes m (js ''quota'') \<or> js_includes m (js ''limit'') then
        APIError (js ''API quota exceeded. Please try again later.'') (Some 429)
          (Some (js ''QUOTA_EXCEEDED'')) True
      else if js_includes m (js ''network'') \<or> js_includes m (js ''fetch'') then
        APIError (js ''Network error occurred. Please check your connection and try again.'')
          (Some 503) (Some (js ''NETWORK_ERROR'')) True
      else APIError (js ''Failed to generate room design: '' @ m) (Some 500)
             (Some (js ''API_ERROR'')) True)"
| "generateImage_catch ThrownUndefined =
     APIError
       (js ''An unexpected error occurred while generating the room design. Please try again.'')
       (Some 500) (Some (js ''UNKNOWN_ERROR'')) True"

text \<open>The \<^verbatim>\<open>try\<close> block followed by the \<^verbatim>\<open>catch\<close> block.\<close>

definition generateImage_result :: "fetch_outcome \<Rightarrow> js_error + jsstring" where
  "generateImage_result outcome =
     (case generateImage_try outcome of
        Inl t \<Rightarrow> Inl (generateImage_catch t)
      | Inr imageData \<Rightarrow> Inr imageData)"

text \<open>
  One invocation of \<open>generateImage\<close>; \<open>env\<close> gives, for the \<open>n\<close>-th invocation, what
  the run meets and how long it takes.
\<close>

definition generateImage ::
  "(nat \<Rightarrow> fetch_outcome \<times> real) \<Rightarrow> world \<Rightarrow> (js_error + jsstring) \<times> world" where
  "generateImage env w =
     (case env (invocations w) of
        (outcome, elapsed) \<Rightarrow>
          (generateImage_result outcome,
           w\<lparr>invocations := Suc (invocations w), now := now w + elapsed\<rparr>))"

definition redesignRoom_or ::
  "nat \<Rightarrow> (jsstring \<Rightarrow> nat list) \<Rightarrow> (nat \<Rightarrow> fetch_outcome \<times> real) \<Rightarrow> jsstring \<Rightarrow> jsstring \<Rightarrow>
   jsstring \<Rightarrow> RedesignOptions \<Rightarrow> world \<Rightarrow> (thrown + jsstring) \<times> world" where
  "redesignRoom_or limit digest env base64ImageData mimeType prompt options w =
     (let config = merge_redesign DEFAULT_REDESIGN_OPTIONS_or options
      in case checkDailyQuota limit w of
           (Inl e, w0) \<Rightarrow> (Inl (Thrown e), w0)
         | (Inr u, w0) \<Rightarrow>
             (case cacheKey_or digest base64ImageData prompt of
                Inl e \<Rightarrow> (Inl (Thrown e), w0)
              | Inr key \<Rightarrow>
                  (case cache_lookup config key w0 of
                     (Some cachedResult, w1) \<Rightarrow> (Inr cachedResult, w1)
                   | (None, w1) \<Rightarrow>
                       (case checkRateLimit w1 of
                          (Inl e, w2) \<Rightarrow> (Inl (Thrown e), w2)
                        | (Inr u', w2) \<Rightarrow>
                            (case withRetry (generateImage env) sleep
                                    (only_maxAttempts (maxRetries config)) w2 of
                               (Inl t, w3) \<Rightarrow> (Inl t, w3)
                             | (Inr result, w3) \<Rightarrow>
                                 (Inr result,
                                  cache_store config key result (incrementDailyUsage w3)))))))"

subsection \<open>Operations used to exercise \<open>withRetry\<close>\<close>

text \<open>As the mocks of the test suite: one always rejects with a retryable \<open>APIError\<close>,
  one always rejects with a non-retryable one.\<close>

definition always_503 :: "unit \<Rightarrow> (js_error + unit) \<times> unit" where
  "always_503 s = (Inl (APIError (js ''Error'') (Some 503) (Some (js ''ERROR'')) True), s)"

definition bad_request :: "unit \<Rightarrow> (js_error + unit) \<times> unit" where
  "bad_request s = (Inl (APIError (js ''Error'') (Some 400) (Some (js ''BAD_REQUEST'')) False), s)"

subsection \<open>Example inputs and states\<close>

text \<open>
  A stand-in for the SHA-256 digest that still tells images of different lengths apart,
  environments whose network call always ends the same way, and a few states of the
  module-level singletons.
\<close>

definition ex_digest :: "jsstring \<Rightarrow> nat list" where
  "ex_digest s = [171, 205, 18, 52, 86, 120, 154, length s]"

definition ex_key :: jsstring where
  "ex_key = js ''room-redesign:abcd123456789a04:VHJhbnNmb3JtIHRoaXMg''"

definition ex_cache :: "jsstring Cache" where
  "ex_cache = Map.empty(ex_key \<mapsto> \<lparr>data = js ''artifact-A'', timestamp = 0, ttl = 86400000\<rparr>)"

definition start_world :: world where
  "start_world =
     \<lparr>now = 1000, cache = Map.empty, rateLimiter = new_RateLimiter,
      localStorage = None, invocations = 0\<rparr>"

definition env_ok :: "nat \<Rightarrow> fetch_outcome \<times> real" where
  "env_ok n = (Rendered (js ''artifact-B''), 250)"


definition env_internal :: "nat \<Rightarrow> callable_outcome \<times> real" where
  "env_internal n = (Rejected (Some (js ''functions/internal'')), 250)"

definition ex_key2 :: jsstring where
  "ex_key2 = js ''room-redesign:AAAA:bW9kZXJu''"

definition hit_world :: world where
  "hit_world =
     \<lparr>now = 1000, cache = ex_cache, rateLimiter = new_RateLimiter,
      localStorage = None, invocations = 0\<rparr>"

definition hit_world2 :: world where
  "hit_world2 =
     \<lparr>now = 1000,
      cache = Map.empty(ex_key2 \<mapsto> \<lparr>data = js ''artifact-A'', timestamp = 0, ttl = 86400000\<rparr>),
      rateLimiter = new_RateLimiter, localStorage = None, invocations = 0\<rparr>"

definition exhausted_world :: world where
  "exhausted_world =
     \<lparr>now = 1000, cache = ex_cache, rateLimiter = new_RateLimiter,
      localStorage = Some \<lparr>date = 0, count = 5\<rparr>, invocations = 0\<rparr>"

definition empty_hit_world :: world where
  "empty_hit_world =
     \<lparr>now = 1000,
      cache = Map.empty(ex_key2 \<mapsto> \<lparr>data = [], timestamp = 0, ttl = 86400000\<rparr>),
      rateLimiter = new_RateLimiter, localStorage = None, invocations = 0\<rparr>"




definition check_then_record :: "(real \<times> limiter_call) list" where
  "check_then_record =
     [(0, CanMakeRequest), (0, RecordRequest), (500, CanMakeRequest), (500, RecordRequest),
      (600, CanMakeRequest)]"

definition env_suggest :: "nat \<Rightarrow> callable_outcome \<times> real" where
  "env_suggest n = (Returned True (js ''Add plants'') (Some (js ''artifact-B'')), 250)"

section \<open>Properties\<close>

subsection \<open>Auxiliary facts\<close>

lemma js_includes_iff: "js_includes s sub \<longleftrightarrow> (\<exists>pre post. s = pre @ sub @ post)"
proof (induction s)
  case Nil
  then show ?case by auto
next
  case (Cons c cs)
  show ?case
  proof
    assume "js_includes (c # cs) sub"
    then consider "take (length sub) (c # cs) = sub" | "js_includes cs sub" by auto
    then show "\<exists>pre post. c # cs = pre @ sub @ post"
    proof cases
      case 1
      then have "c # cs = [] @ sub @ drop (length sub) (c # cs)"
        by (metis append_Nil append_take_drop_id)
      then show ?thesis by blast
    next
      case 2
      with Cons.IH obtain pre post where "cs = pre @ sub @ post" by blast
      then have "c # cs = (c # pre) @ sub @ post" by simp
      then show ?thesis by blast
    qed
  next
    assume "\<exists>pre post. c # cs = pre @ sub @ post"
    then obtain pre post where eq: "c # cs = pre @ sub @ post" by blast
    show "js_includes (c # cs) sub"
    proof (cases pre)
      case Nil
      with eq have "take (length sub) (c # cs) = sub" by simp
      then show ?thesis by simp
    next
      case (Cons p ps)
      with eq have "cs = ps @ sub @ post" by simp
      with Cons.IH have "js_includes cs sub" by blast
      then show ?thesis by simp
    qed
  qed
qed

lemma loop_stop: "\<not> of_int a \<le> maxAttempts config \<Longrightarrow>
  withRetry_loop operation pause config a le s =
    (case le of None \<Rightarrow> (Inl ThrownUndefined, s) | Some e \<Rightarrow> (Inl (Thrown e), s))"
  by (subst withRetry_loop.simps) simp

lemma loop_fail_last:
  "of_int a \<le> maxAttempts config \<Longrightarrow> operation s = (Inl e, s') \<Longrightarrow>
   \<not> isRetryableError e \<or> of_int a = maxAttempts config \<Longrightarrow>
   withRetry_loop operation pause config a le s = (Inl (Thrown e), s')"
  by (subst withRetry_loop.simps) simp

lemma loop_fail_retry:
  "of_int a \<le> maxAttempts config \<Longrightarrow> operation s = (Inl e, s') \<Longrightarrow>
   isRetryableError e \<Longrightarrow> of_int a \<noteq> maxAttempts config \<Longrightarrow>
   withRetry_loop operation pause config a le s =
     withRetry_loop operation pause config (a + 1) (Some e) (pause (calculateDelay a config) s')"
  by (subst withRetry_loop.simps) simp

lemma loop_success:
  "of_int a \<le> maxAttempts config \<Longrightarrow> operation s = (Inr v, s') \<Longrightarrow>
   withRetry_loop operation pause config a le s = (Inr v, s')"
  by (subst withRetry_loop.simps) simp

lemma loop_all_retryable:
  assumes always: "\<forall>s. \<exists>e s'. operation s = (Inl e, s') \<and> isRetryableError e"
    and M: "maxAttempts config = of_int M"
  shows "a \<le> M \<Longrightarrow> n = nat (M - a) \<Longrightarrow>
    (case withRetry_loop (spy_on operation) (spy_sleep pause) config a le sp of
       (r, sp') \<Rightarrow>
         length (results sp') = length (results sp) + nat (M - a + 1) \<and>
         (\<exists>e. r = Inl (Thrown e) \<and> last (results sp') = Inl e \<and> isRetryableError e) \<and>
         sleeps sp' = sleeps sp @ map (\<lambda>i. calculateDelay i config) [a..M - 1])"
proof (induction n arbitrary: a le sp)
  case 0
  then have aM: "a = M" by simp
  from always obtain e s' where op: "operation (inner sp) = (Inl e, s')" and re: "isRetryableError e"
    by blast
  have sp: "spy_on operation sp = (Inl e, sp\<lparr>results := results sp @ [Inl e], inner := s'\<rparr>)"
    by (simp add: spy_on_def op)
  have "withRetry_loop (spy_on operation) (spy_sleep pause) config a le sp =
          (Inl (Thrown e), sp\<lparr>results := results sp @ [Inl e], inner := s'\<rparr>)"
    by (rule loop_fail_last) (simp_all add: aM M sp)
  then show ?case using re by (simp add: aM)
next
  case (Suc n)
  then have aM: "a < M" by simp
  from always obtain e s' where op: "operation (inner sp) = (Inl e, s')" and re: "isRetryableError e"
    by blast
  let ?sp1 = "sp\<lparr>results := results sp @ [Inl e], inner := s'\<rparr>"
  let ?sp2 = "spy_sleep pause (calculateDelay a config) ?sp1"
  have sp: "spy_on operation sp = (Inl e, ?sp1)"
    by (simp add: spy_on_def op)
  have step: "withRetry_loop (spy_on operation) (spy_sleep pause) config a le sp =
          withRetry_loop (spy_on operation) (spy_sleep pause) config (a + 1) (Some e) ?sp2"
    by (rule loop_fail_retry) (use aM re in \<open>simp_all add: M sp\<close>)
  have IH: "case withRetry_loop (spy_on operation) (spy_sleep pause) config (a + 1) (Some e) ?sp2 of
       (r, sp') \<Rightarrow>
         length (results sp') = length (results ?sp2) + nat (M - (a + 1) + 1) \<and>
         (\<exists>e. r = Inl (Thrown e) \<and> last (results sp') = Inl e \<and> isRetryableError e) \<and>
         sleeps sp' = sleeps ?sp2 @ map (\<lambda>i. calculateDelay i config) [a + 1..M - 1]"
    by (rule Suc.IH) (use Suc.prems aM in simp_all)
  have up: "[a..M - 1] = a # [a + 1..M - 1]"
    using aM by (simp add: upto_rec1)
  have len: "nat (M - a + 1) = Suc (nat (M - (a + 1) + 1))"
    using aM by simp
  show ?case
    unfolding step using IH
    by (auto simp: spy_sleep_def up len split: prod.splits)
qed

text \<open>Doubles are fixed by the rounding, and what reaches \<open>2 ^ 1024\<close> is infinite.\<close>

lemma rne_of_int [simp]: "rne (of_int k) = k"
  by (simp add: rne_def)


lemma floor_log2_less:
  assumes "0 < x" "x < 2 ^ n"
  shows "\<lfloor>log 2 x\<rfloor> < int n"
proof -
  have "log 2 x < log 2 (2 ^ n)"
    using assms by (simp add: log_less_cancel_iff del: log_pow_cancel)
  then have "log 2 x < real n" by simp
  then show ?thesis by (simp add: floor_less_iff)
qed


lemma round_double_exact:
  assumes m: "\<bar>m\<bar> < 2 ^ 53" and v: "v = of_int m * 2 ^ j" and small: "\<bar>v\<bar> < 2 ^ 1024"
  shows "round_double v = Num v"
proof (cases "v = 0")
  case True
  then show ?thesis by (simp add: round_double_def)
next
  case False
  define e where "e = \<lfloor>log 2 \<bar>v\<bar>\<rfloor>"
  define q where "q = max (e - 52) (- 1074)"
  have "\<bar>v\<bar> = of_int \<bar>m\<bar> * 2 ^ j" by (simp add: v abs_mult)
  also have "\<dots> < 2 ^ 53 * 2 ^ j"
  proof -
    have "(of_int \<bar>m\<bar> :: real) < of_int (2 ^ 53)" using m by (simp only: of_int_less_iff)
    then show ?thesis by simp
  qed
  finally have "\<bar>v\<bar> < 2 ^ (53 + j)" by (simp add: power_add)
  then have "e < int (53 + j)"
    unfolding e_def using False by (intro floor_log2_less) auto
  then have qj: "q \<le> int j" by (simp add: q_def)
  define k where "k = nat (int j - q)"
  have jq: "int j = q + int k" using qj by (simp add: k_def)
  have "(2::real) ^ j = power_int 2 (int j)" by simp
  also have "\<dots> = power_int 2 q * power_int 2 (int k)"
    unfolding jq by (simp add: power_int_add)
  finally have pw: "(2::real) ^ j = power_int 2 q * 2 ^ k" by simp
  have q0: "power_int (2::real) q \<noteq> 0" by simp
  have "v / power_int 2 q = of_int m * 2 ^ k"
    unfolding v pw using q0 by simp
  also have "\<dots> = of_int (m * 2 ^ k)" by simp
  finally have "rne (v / power_int 2 q) = m * 2 ^ k" by (simp only: rne_of_int)
  then have r: "of_int (rne (v / power_int 2 q)) * power_int 2 q = v"
    unfolding v pw by simp
  show ?thesis
    using False small r
    by (simp add: round_double_def Let_def e_def [symmetric] q_def [symmetric] abs_less_iff)
qed


lemma round_double_int:
  "\<bar>m\<bar> < 2 ^ 53 \<Longrightarrow> round_double (of_int m) = Num (of_int m)"
proof -
  assume m: "\<bar>m\<bar> < 2 ^ 53"
  then have "\<bar>of_int m :: real\<bar> < of_int (2 ^ 53)"
    by (metis of_int_abs of_int_less_iff)
  then have "\<bar>of_int m :: real\<bar> < 2 ^ 1024" by simp
  with m show ?thesis
    using round_double_exact [of m "of_int m" 0] by simp
qed

lemma round_double_numeral [simp]:
  "(numeral n :: int) < 2 ^ 53 \<Longrightarrow> round_double (numeral n) = Num (numeral n)"
  using round_double_int [of "numeral n"] by simp



lemma canMakeRequest_fst:
  "fst (canMakeRequest t rl) =
     (real (length (filter (\<lambda>time. t - time < windowMs rl) (requests rl))) < maxRequests rl)"
  by (simp add: canMakeRequest_def Let_def)

text \<open>What a check sees after any earlier calls: the recorded timestamps still in its window.\<close>

lemma limiter_step_fields [simp]:
  "maxRequests (limiter_step c rl) = maxRequests rl"
  "windowMs (limiter_step c rl) = windowMs rl"
proof -
  obtain t k where c: "c = (t, k)" by (cases c)
  show "maxRequests (limiter_step c rl) = maxRequests rl"
    and "windowMs (limiter_step c rl) = windowMs rl"
    by (cases k; simp add: c canMakeRequest_def recordRequest_def Let_def)+
qed

lemma fold_limiter_step_fields [simp]:
  "maxRequests (fold limiter_step calls rl) = maxRequests rl"
  "windowMs (fold limiter_step calls rl) = windowMs rl"
  by (induction calls arbitrary: rl) simp_all

lemma requests_after_calls:
  assumes "\<forall>c\<in>set calls. fst c \<le> T"
  shows "filter (\<lambda>time. T - time < windowMs rl) (requests (fold limiter_step calls rl)) =
         filter (\<lambda>time. T - time < windowMs rl) (requests rl @ recorded calls)"
  using assms
proof (induction calls arbitrary: rl)
  case Nil
  then show ?case by simp
next
  case (Cons c calls)
  obtain t k where c: "c = (t, k)" by (cases c)
  from Cons.prems have rest: "\<forall>c\<in>set calls. fst c \<le> T" and t: "t \<le> T"
    by (simp_all add: c)
  note IH = Cons.IH [OF rest, of "limiter_step c rl"]
  show ?case
  proof (cases k)
    case CanMakeRequest
    have "filter (\<lambda>time. T - time < windowMs rl)
            (filter (\<lambda>time. t - time < windowMs rl) (requests rl)) =
          filter (\<lambda>time. T - time < windowMs rl) (requests rl)"
      using t by (auto intro!: filter_cong)
    with IH show ?thesis
      by (simp add: c CanMakeRequest canMakeRequest_def Let_def)
  next
    case RecordRequest
    with IH show ?thesis
      by (simp add: c recordRequest_def)
  qed
qed

lemma canMakeRequest_after_calls:
  assumes "\<forall>c\<in>set calls. fst c \<le> T"
  shows "fst (canMakeRequest T (fold limiter_step calls rl)) =
           (real (length (filter (\<lambda>time. T - time < windowMs rl) (requests rl @ recorded calls)))
              < maxRequests rl)"
  using requests_after_calls [OF assms, of rl]
  by (simp add: canMakeRequest_fst)



lemma sleep_fields [simp]:
  "cache (sleep d w) = cache w" "localStorage (sleep d w) = localStorage w"
  "rateLimiter (sleep d w) = rateLimiter w" "invocations (sleep d w) = invocations w"
  by (simp_all add: sleep_def)

lemma loop_world:
  assumes op: "\<And>w. operation w =
                 (f (fst (env (invocations w))),
                  w\<lparr>invocations := Suc (invocations w), now := now w + snd (env (invocations w))\<rparr>)"
  shows "n = nat (\<lfloor>maxAttempts config\<rfloor> + 1 - a) \<Longrightarrow>
         withRetry_loop operation sleep config a le w = (r, w') \<Longrightarrow>
         cache w' = cache w \<and> localStorage w' = localStorage w \<and> rateLimiter w' = rateLimiter w \<and>
         invocations w \<le> invocations w' \<and>
         (if invocations w' = invocations w
          then r = (case le of None \<Rightarrow> Inl ThrownUndefined | Some e \<Rightarrow> Inl (Thrown e))
          else r = (case f (fst (env (invocations w' - 1))) of
                      Inl e \<Rightarrow> Inl (Thrown e) | Inr v \<Rightarrow> Inr v))"
proof (induction n arbitrary: a le w)
  case 0
  then have "\<not> a \<le> \<lfloor>maxAttempts config\<rfloor>"
    by simp
  then have "\<not> of_int a \<le> maxAttempts config"
    by (simp only: le_floor_iff not_False_eq_True)
  then have "withRetry_loop operation sleep config a le w =
      (case le of None \<Rightarrow> (Inl ThrownUndefined, w) | Some e \<Rightarrow> (Inl (Thrown e), w))"
    by (rule loop_stop)
  with "0.prems"(2) show ?case
    by (auto split: option.splits)
next
  case (Suc n)
  then have "a \<le> \<lfloor>maxAttempts config\<rfloor>"
    by simp
  then have le_max: "of_int a \<le> maxAttempts config"
    by (simp only: le_floor_iff)
  let ?w1 = "w\<lparr>invocations := Suc (invocations w), now := now w + snd (env (invocations w))\<rparr>"
  have opw: "operation w = (f (fst (env (invocations w))), ?w1)" by (rule op)
  show ?case
  proof (cases "f (fst (env (invocations w)))")
    case (Inr v)
    have "withRetry_loop operation sleep config a le w = (Inr v, ?w1)"
      by (rule loop_success [OF le_max]) (simp add: opw Inr)
    with Suc.prems(2) show ?thesis
      by (auto simp: Inr)
  next
    case (Inl e)
    show ?thesis
    proof (cases "\<not> isRetryableError e \<or> of_int a = maxAttempts config")
      case True
      have "withRetry_loop operation sleep config a le w = (Inl (Thrown e), ?w1)"
        by (rule loop_fail_last [OF le_max _ True]) (simp add: opw Inl)
      with Suc.prems(2) show ?thesis
        by (auto simp: Inl)
    next
      case False
      let ?w2 = "sleep (calculateDelay a config) ?w1"
      have "withRetry_loop operation sleep config a le w =
              withRetry_loop operation sleep config (a + 1) (Some e) ?w2"
        by (rule loop_fail_retry [OF le_max]) (use False in \<open>simp_all add: opw Inl\<close>)
      with Suc.prems(2) have rec: "withRetry_loop operation sleep config (a + 1) (Some e) ?w2 = (r, w')"
        by simp
      have n: "n = nat (\<lfloor>maxAttempts config\<rfloor> + 1 - (a + 1))"
        using Suc.prems(1) by simp
      have IH: "cache w' = cache ?w2 \<and> localStorage w' = localStorage ?w2 \<and>
         rateLimiter w' = rateLimiter ?w2 \<and> invocations ?w2 \<le> invocations w' \<and>
         (if invocations w' = invocations ?w2
          then r = (case Some e of None \<Rightarrow> Inl ThrownUndefined | Some e \<Rightarrow> Inl (Thrown e))
          else r = (case f (fst (env (invocations w' - 1))) of
                      Inl e \<Rightarrow> Inl (Thrown e) | Inr v \<Rightarrow> Inr v))"
        by (rule Suc.IH [OF n rec])
      then show ?thesis
        by (auto simp: Inl split: if_splits)
    qed
  qed
qed

lemma generateImage_eq:
  "generateImage env w =
     (generateImage_result (fst (env (invocations w))),
      w\<lparr>invocations := Suc (invocations w), now := now w + snd (env (invocations w))\<rparr>)"
  by (simp add: generateImage_def case_prod_beta)


lemma withRetry_generateImage:
  assumes "withRetry (generateImage env) sleep options w = (r, w')"
  shows "cache w' = cache w \<and> localStorage w' = localStorage w \<and> rateLimiter w' = rateLimiter w \<and>
         invocations w \<le> invocations w' \<and>
         (if invocations w' = invocations w then r = Inl ThrownUndefined
          else r = (case generateImage_result (fst (env (invocations w' - 1))) of
                      Inl e \<Rightarrow> Inl (Thrown e) | Inr v \<Rightarrow> Inr v))"
proof -
  from assms have "withRetry_loop (generateImage env) sleep (merge_retry defaultRetryOptions options)
                     1 None w = (r, w')"
    by (simp add: withRetry_def)
  from loop_world [where f = generateImage_result and env = env, OF generateImage_eq refl this]
  show ?thesis by simp
qed


text \<open>What each step of \<open>redesignRoom\<close> leaves untouched.\<close>

lemma getDailyUsage_frame [simp]:
  "cache (snd (getDailyUsage w)) = cache w"
  "rateLimiter (snd (getDailyUsage w)) = rateLimiter w"
  "invocations (snd (getDailyUsage w)) = invocations w"
  "now (snd (getDailyUsage w)) = now w"
  by (simp_all add: getDailyUsage_def Let_def split: option.splits)

lemma checkDailyQuota_snd [simp]: "snd (checkDailyQuota limit w) = snd (getDailyUsage w)"
  by (simp add: checkDailyQuota_def split: prod.splits)

lemma checkDailyQuota_fst:
  "fst (checkDailyQuota limit w) =
     (if count (fst (getDailyUsage w)) \<ge> int limit then Inl (quota_error limit) else Inr ())"
  by (simp add: checkDailyQuota_def split: prod.splits)

lemma cache_lookup_hit:
  assumes "useCache config" "cache w key = Some e" "now w - timestamp e \<le> ttl e" "data e \<noteq> []"
  shows "cache_lookup config key w = (Some (data e), w)"
  using assms by (simp add: cache_lookup_def cache_get_def)

lemma getDailyUsage_stored:
  "localStorage (snd (getDailyUsage w)) = Some (fst (getDailyUsage w))"
  "date (fst (getDailyUsage w)) = today (now w)"
  by (simp_all add: getDailyUsage_def Let_def split: option.splits)

lemma getDailyUsage_same_day:
  "localStorage w = Some u \<Longrightarrow> date u = today (now w) \<Longrightarrow> getDailyUsage w = (u, w)"
  by (simp add: getDailyUsage_def Let_def)

lemma cache_lookup_frame:
  assumes "cache_lookup config key w = (x, w1)"
  shows "localStorage w1 = localStorage w" "rateLimiter w1 = rateLimiter w"
    "invocations w1 = invocations w" "now w1 = now w"
    "cache w1 = cache w \<or> cache w1 = (cache w)(key := None)"
  using assms
  by (auto simp: cache_lookup_def cache_get_def split: if_splits option.splits)

lemma checkRateLimit_frame:
  assumes "checkRateLimit w = (x, w1)"
  shows "localStorage w1 = localStorage w" "cache w1 = cache w"
    "invocations w1 = invocations w" "now w1 = now w"
  using assms
  by (auto simp: checkRateLimit_def Let_def split: if_splits prod.splits)

lemma incrementDailyUsage_frame [simp]:
  "cache (incrementDailyUsage w) = cache w" "rateLimiter (incrementDailyUsage w) = rateLimiter w"
  "invocations (incrementDailyUsage w) = invocations w" "now (incrementDailyUsage w) = now w"
  by (simp_all add: incrementDailyUsage_def getDailyUsage_def Let_def split: option.splits prod.splits)

lemma cache_store_frame [simp]:
  "localStorage (cache_store config key r w) = localStorage w"
  "rateLimiter (cache_store config key r w) = rateLimiter w"
  "invocations (cache_store config key r w) = invocations w"
  "now (cache_store config key r w) = now w"
  by (simp_all add: cache_store_def)

text \<open>The shape of every run that invoked the network operation.\<close>

lemma redesignRoom_or_invoked:
  assumes run: "redesignRoom_or limit digest env img mime prompt options w = (res, w')"
    and inv: "invocations w' \<noteq> invocations w"
  obtains key w1 w2 w3 r where
    "cacheKey_or digest img prompt = Inr key"
    "cache_lookup (merge_redesign DEFAULT_REDESIGN_OPTIONS_or options) key (snd (getDailyUsage w)) = (None, w1)"
    "checkRateLimit w1 = (Inr (), w2)"
    "withRetry (generateImage env) sleep
       (only_maxAttempts (maxRetries (merge_redesign DEFAULT_REDESIGN_OPTIONS_or options))) w2 = (r, w3)"
    "invocations w3 \<noteq> invocations w"
    "(\<exists>t. r = Inl t \<and> res = Inl t \<and> w' = w3) \<or>
     (\<exists>v. r = Inr v \<and> res = Inr v \<and>
        w' = cache_store (merge_redesign DEFAULT_REDESIGN_OPTIONS_or options) key v (incrementDailyUsage w3))"
proof -
  let ?config = "merge_redesign DEFAULT_REDESIGN_OPTIONS_or options"
  let ?w0 = "snd (getDailyUsage w)"
  have inv0: "invocations ?w0 = invocations w" by simp
  obtain q where q: "checkDailyQuota limit w = (q, ?w0)"
    by (metis checkDailyQuota_snd prod.collapse)
  show thesis
  proof (cases q)
    case (Inl e)
    with run q inv inv0 show ?thesis by (simp add: redesignRoom_or_def)
  next
    case q_ok: (Inr u)
    show ?thesis
    proof (cases "cacheKey_or digest img prompt")
      case (Inl e)
      with run q q_ok inv inv0 show ?thesis by (simp add: redesignRoom_or_def)
    next
      case (Inr key)
      obtain hit w1 where look: "cache_lookup ?config key ?w0 = (hit, w1)" by force
      have inv1: "invocations w1 = invocations w"
        using cache_lookup_frame(3) [OF look] by simp
      show ?thesis
      proof (cases hit)
        case (Some v)
        with run q q_ok Inr look inv inv1 show ?thesis by (simp add: redesignRoom_or_def)
      next
        case None
        obtain rl w2 where rate: "checkRateLimit w1 = (rl, w2)" by force
        have inv2: "invocations w2 = invocations w"
          using checkRateLimit_frame(3) [OF rate] inv1 by simp
        show ?thesis
        proof (cases rl)
          case (Inl e)
          with run q q_ok Inr look None rate inv inv2 show ?thesis
            by (simp add: redesignRoom_or_def)
        next
          case rl_ok: (Inr u')
          obtain r w3 where retry: "withRetry (generateImage env) sleep
              (only_maxAttempts (maxRetries ?config)) w2 = (r, w3)" by force
          have res: "(\<exists>t. r = Inl t \<and> res = Inl t \<and> w' = w3) \<or>
              (\<exists>v. r = Inr v \<and> res = Inr v \<and>
                 w' = cache_store ?config key v (incrementDailyUsage w3))"
            using run q q_ok Inr look None rate rl_ok retry
            by (cases r) (auto simp: redesignRoom_or_def)
          then have "invocations w' = invocations w3" by auto
          with inv have "invocations w3 \<noteq> invocations w" by simp
          with Inr look None rate rl_ok retry res show ?thesis
            using that by simp
        qed
      qed
    qed
  qed
qed


text \<open>Concrete runs, evaluated.\<close>

lemmas run_defs =
  redesignRoom_or_def redesignRoom_def checkDailyQuota_def getDailyUsage_def today_def
  cache_lookup_def cache_get_def checkRateLimit_def canMakeRequest_def recordRequest_def
  new_RateLimiter_def withRetry_def withRetry_loop.simps generateImage_def generateImage_result_def
  generateDesign_def generateDesign_catch_def
  merge_retry_def only_maxAttempts_def defaultRetryOptions_def merge_redesign_def
  DEFAULT_REDESIGN_OPTIONS_def DEFAULT_REDESIGN_OPTIONS_or_def no_options_def
  incrementDailyUsage_def cache_store_def cache_set_def sleep_def calculateDelay_def js_pow_def
  Let_def

lemma ex_key_derived:
  "cacheKey_or ex_digest (js ''AAAA'') (js ''modern'') = Inr ex_key"
  by (simp add: cacheKey_or_def btoa_def js_def createOptimizedPrompt_def ex_digest_def
      createCacheKey_def generateImageHash_or_def b64char_def ex_key_def padStart2_def
      toString16.simps hexdigit_def)

lemma first_run:
  "redesignRoom_or 1 ex_digest env_ok (js ''AAAA'') (js ''image/png'') (js ''modern'') no_options
     start_world =
   (Inr (js ''artifact-B''),
    \<lparr>now = 1250,
     cache = Map.empty(ex_key \<mapsto> \<lparr>data = js ''artifact-B'', timestamp = 1250, ttl = 86400000\<rparr>),
     rateLimiter = \<lparr>requests = [1000], maxRequests = 10, windowMs = 60000\<rparr>,
     localStorage = Some \<lparr>date = 0, count = 1\<rparr>, invocations = 1\<rparr>)"
  by (simp add: run_defs ex_key_derived start_world_def env_ok_def)



lemma ex_key2_derived: "cacheKey (js ''AAAA'') (js ''modern'') = Inr ex_key2"
  by (simp add: cacheKey_def btoa_def js_def createCacheKey_def generateImageHash_def
      b64char_def ex_key2_def)

text \<open>Only the first 15 characters of a string reach the first 20 of its base64.\<close>

lemma b64enc_take: "3 * k \<le> length s \<Longrightarrow> take (4 * k) (b64enc s) = b64enc (take (3 * k) s)"
proof (induction k arbitrary: s)
  case 0
  then show ?case by simp
next
  case (Suc k)
  then obtain a b c rest where s: "s = a # b # c # rest"
    by (cases s rule: b64enc.cases) auto
  with Suc.prems have "3 * k \<le> length rest" by simp
  then have "take (4 * k) (b64enc rest) = b64enc (take (3 * k) rest)" by (rule Suc.IH)
  moreover have "4 * Suc k = Suc (Suc (Suc (Suc (4 * k))))" "3 * Suc k = Suc (Suc (Suc (3 * k)))"
    by simp_all
  ultimately show ?case
    unfolding s by (simp only: take_Suc_Cons b64enc.simps append_Cons append_Nil)
qed

lemma b64enc_take_20: "15 \<le> length s \<Longrightarrow> take 20 (b64enc s) = b64enc (take 15 s)"
  using b64enc_take [of 5 s] by simp

lemma cacheKey_prefix:
  assumes "\<not> list_ex (\<lambda>c. 255 < c) p" "\<not> list_ex (\<lambda>c. 255 < c) q"
    and "15 \<le> length p" "15 \<le> length q" "take 15 p = take 15 q"
  shows "cacheKey img p = cacheKey img q"
  using assms by (simp add: cacheKey_def btoa_def b64enc_take_20)

lemma length_js [simp]: "length (js s) = length s"
  by (simp add: js_def)

lemma optimized_prefix:
  "take 15 (createOptimizedPrompt p) = js ''Transform this ''"
  by (simp add: createOptimizedPrompt_def js_def)

lemma cacheKey_or_ignores_prompt:
  assumes "\<not> list_ex (\<lambda>c. 255 < c) (take 100 p)" "\<not> list_ex (\<lambda>c. 255 < c) (take 100 q)"
  shows "cacheKey_or digest img p = cacheKey_or digest img q"
proof -
  have small: "(of_char c :: nat) < 256" for c
  proof -
    have "(of_char c :: nat) mod 256 = of_char c" by (rule of_char_mod_256)
    then show ?thesis by (metis mod_less_divisor zero_less_numeral)
  qed
  have latin: "\<not> list_ex (\<lambda>c. 255 < c) (js s)" for s
  proof -
    have "\<not> 255 < (of_char c :: nat)" for c
      using small [of c] by linarith
    then show ?thesis by (simp add: js_def list_ex_iff)
  qed
  have ok: "\<not> list_ex (\<lambda>c. 255 < c) (createOptimizedPrompt r)" if "\<not> list_ex (\<lambda>c. 255 < c) (take 100 r)" for r
    using that latin by (simp add: createOptimizedPrompt_def list_ex_iff) blast
  have len: "15 \<le> length (createOptimizedPrompt r)" for r
    by (simp add: createOptimizedPrompt_def)
  show ?thesis
    using assms by (simp add: cacheKey_or_def btoa_def ok b64enc_take_20 len optimized_prefix)
qed

subsection \<open>Retry\<close>

text \<open>
  C3. With \<open>maxAttempts = M \<ge> 1\<close> and an operation that rejects with a retryable error
  on every invocation, \<open>withRetry\<close> invokes the operation exactly \<open>M\<close> times and then
  throws the error of the last invocation.
\<close>

theorem withRetry_retryable_exhausts:
  assumes "1 \<le> M"
    and "maxAttempts_opt options = Some (of_int M)"
    and "\<forall>s. \<exists>e s'. operation s = (Inl e, s') \<and> isRetryableError e"
  shows "case withRetry (spy_on operation) (spy_sleep pause) options (new_spy s0) of
           (r, sp) \<Rightarrow>
             length (results sp) = nat M \<and>
             (\<exists>e. r = Inl (Thrown e) \<and> last (results sp) = Inl e)"
proof -
  let ?config = "merge_retry defaultRetryOptions options"
  have M: "maxAttempts ?config = of_int M"
    using assms(2) by (simp add: merge_retry_def)
  have "case withRetry_loop (spy_on operation) (spy_sleep pause) ?config 1 None (new_spy s0) of
       (r, sp') \<Rightarrow>
         length (results sp') = length (results (new_spy s0 :: ('a, 'b) spy)) + nat (M - 1 + 1) \<and>
         (\<exists>e. r = Inl (Thrown e) \<and> last (results sp') = Inl e \<and> isRetryableError e) \<and>
         sleeps sp' = sleeps (new_spy s0 :: ('a, 'b) spy) @ map (\<lambda>i. calculateDelay i ?config) [1..M - 1]"
    by (rule loop_all_retryable [OF assms(3) M assms(1) refl])
  then show ?thesis
    by (auto simp: withRetry_def new_spy_def split: prod.splits)
qed

theorem withRetry_retryable_exhausts_witness:
  "(1::int) \<le> 3 \<and>
   maxAttempts_opt (only_maxAttempts 3) = Some (of_int 3) \<and>
   (\<forall>s. \<exists>e s'. always_503 s = (Inl e, s') \<and> isRetryableError e) \<and>
   (case withRetry (spy_on always_503) (spy_sleep (\<lambda>d s. s)) (only_maxAttempts 3) (new_spy ()) of
      (r, sp) \<Rightarrow> length (results sp) = nat 3 \<and> (\<exists>e. r = Inl (Thrown e) \<and> last (results sp) = Inl e))"
proof -
  have h1: "(1::int) \<le> 3" by simp
  have h2: "maxAttempts_opt (only_maxAttempts 3) = Some (of_int 3)"
    by (simp add: only_maxAttempts_def)
  have h3: "\<forall>s. \<exists>e s'. always_503 s = (Inl e, s') \<and> isRetryableError e"
    by (simp add: always_503_def)
  show ?thesis
    using h1 h2 h3 withRetry_retryable_exhausts [OF h1 h2 h3, of "\<lambda>d s. s" "()"] by simp
qed

text \<open>
  C4. With \<open>maxAttempts \<ge> 1\<close> and an operation whose first invocation rejects with an
  error that is not retryable, \<open>withRetry\<close> invokes the operation once, waits for no
  delay and throws that error. An \<open>APIError\<close> is retryable exactly when its flag says
  so; any other error exactly when its message contains \<^verbatim>\<open>network\<close> or \<^verbatim>\<open>fetch\<close>.
\<close>

theorem withRetry_nonretryable_once:
  assumes "1 \<le> M"
    and "maxAttempts_opt options = Some M"
    and "operation s0 = (Inl e, s1)"
    and "\<not> isRetryableError e"
  shows "withRetry (spy_on operation) (spy_sleep pause) options (new_spy s0) =
           (Inl (Thrown e), \<lparr>results = [Inl e], sleeps = [], inner = s1\<rparr>) \<and>
         (\<forall>m st c r. isRetryableError (APIError m st c r) = r) \<and>
         (\<forall>m. isRetryableError (Error m) =
            ((\<exists>pre post. m = pre @ js ''network'' @ post) \<or>
             (\<exists>pre post. m = pre @ js ''fetch'' @ post)))"
proof -
  let ?config = "merge_retry defaultRetryOptions options"
  have M: "maxAttempts ?config = M"
    using assms(2) by (simp add: merge_retry_def)
  have sp: "spy_on operation (new_spy s0) = (Inl e, \<lparr>results = [Inl e], sleeps = [], inner = s1\<rparr>)"
    by (simp add: spy_on_def new_spy_def assms(3))
  have "withRetry_loop (spy_on operation) (spy_sleep pause) ?config 1 None (new_spy s0) =
          (Inl (Thrown e), \<lparr>results = [Inl e], sleeps = [], inner = s1\<rparr>)"
    by (rule loop_fail_last) (use assms(1,4) in \<open>simp_all add: M sp\<close>)
  then show ?thesis
    by (simp add: withRetry_def js_includes_iff)
qed

theorem withRetry_nonretryable_once_witness:
  "withRetry (spy_on bad_request) (spy_sleep (\<lambda>d s. s)) (only_maxAttempts 3) (new_spy ()) =
     (Inl (Thrown (APIError (js ''Error'') (Some 400) (Some (js ''BAD_REQUEST'')) False)),
      \<lparr>results = [Inl (APIError (js ''Error'') (Some 400) (Some (js ''BAD_REQUEST'')) False)],
       sleeps = [], inner = ()\<rparr>)"
proof -
  have h1: "(1::real) \<le> 3" by simp
  have h2: "maxAttempts_opt (only_maxAttempts 3) = Some 3"
    by (simp add: only_maxAttempts_def)
  have h3: "bad_request () = (Inl (APIError (js ''Error'') (Some 400) (Some (js ''BAD_REQUEST'')) False), ())"
    by (simp add: bad_request_def)
  have h4: "\<not> isRetryableError (APIError (js ''Error'') (Some 400) (Some (js ''BAD_REQUEST'')) False)"
    by simp
  show ?thesis
    using withRetry_nonretryable_once
            [where M = 3 and options = "only_maxAttempts 3" and operation = bad_request
               and ?s0.0 = "()" and ?s1.0 = "()" and pause = "\<lambda>d s. s", OF h1 h2 h3 h4]
    by simp
qed




text \<open>
  C10. When the merged \<open>maxAttempts\<close> is below 1 the operation is never invoked and
  \<open>withRetry\<close> throws the unassigned \<open>lastError\<close>, that is \<^verbatim>\<open>undefined\<close>, which is no
  \<open>APIError\<close>.
\<close>

theorem withRetry_no_attempts_throws_undefined:
  assumes "maxAttempts (merge_retry defaultRetryOptions options) < 1"
  shows "withRetry (spy_on operation) (spy_sleep pause) options (new_spy s0) =
           (Inl ThrownUndefined, \<lparr>results = [], sleeps = [], inner = s0\<rparr>) \<and>
         (\<forall>m st c r. fst (withRetry (spy_on operation) (spy_sleep pause) options (new_spy s0)) \<noteq>
            Inl (Thrown (APIError m st c r)))"
proof -
  have "withRetry_loop (spy_on operation) (spy_sleep pause)
          (merge_retry defaultRetryOptions options) 1 None (new_spy s0) =
        (Inl ThrownUndefined, new_spy s0)"
    using assms by (subst loop_stop) simp_all
  then show ?thesis
    by (simp add: withRetry_def new_spy_def)
qed

theorem withRetry_no_attempts_throws_undefined_witness:
  "maxAttempts (merge_retry defaultRetryOptions (only_maxAttempts 0)) < 1 \<and>
   withRetry (spy_on always_503) (spy_sleep (\<lambda>d s. s)) (only_maxAttempts 0) (new_spy ()) =
     (Inl ThrownUndefined, \<lparr>results = [], sleeps = [], inner = ()\<rparr>)"
proof -
  have h: "maxAttempts (merge_retry defaultRetryOptions (only_maxAttempts 0)) < 1"
    by (simp add: merge_retry_def only_maxAttempts_def)
  show ?thesis
    using h withRetry_no_attempts_throws_undefined [OF h, of always_503 "\<lambda>d s. s" "()"] by simp
qed

subsection \<open>Cache\<close>

text \<open>
  C6. For \<open>ttl > 0\<close>, \<open>set\<close> followed by \<open>get\<close> at the same clock reading returns the
  value and leaves the cache as it is; once \<open>now - storedAt > ttl\<close>, \<open>get\<close> returns
  \<^verbatim>\<open>null\<close> and deletes the entry. \<open>cache_get\<close> has no failing branch.
\<close>

theorem cache_ttl:
  assumes "0 < l"
  shows "cache_get t k (cache_set t k v l c) = (Some v, cache_set t k v l c) \<and>
         (\<forall>t'. t' - t > l \<longrightarrow>
            cache_get t' k (cache_set t k v l c) = (None, (cache_set t k v l c)(k := None)))"
  using assms by (simp add: cache_get_def cache_set_def)

theorem cache_ttl_witness:
  "(0::real) < 1000 \<and>
   fst (cache_get 5 (js ''key1'') (cache_set 5 (js ''key1'') (js ''value1'') 1000 Map.empty)) =
     Some (js ''value1'') \<and>
   fst (cache_get 1006 (js ''key1'') (cache_set 5 (js ''key1'') (js ''value1'') 1000 Map.empty)) = None \<and>
   snd (cache_get 1006 (js ''key1'') (cache_set 5 (js ''key1'') (js ''value1'') 1000 Map.empty))
     (js ''key1'') = None"
proof -
  have h: "(0::real) < 1000" by simp
  have far: "(1006::real) - 5 > 1000" by simp
  show ?thesis
    using h far cache_ttl [OF h, of 5 "js ''key1''" "js ''value1''" Map.empty]
    by simp
qed

subsection \<open>Rate limiter\<close>

text \<open>
  C7. Take any sequence of \<open>canMakeRequest\<close> and \<open>recordRequest\<close> calls on a limiter with
  \<open>maxRequests = N\<close> and window \<open>W\<close>, none later than the clock reading \<open>T\<close>. Then
  \<open>canMakeRequest\<close> at \<open>T\<close> is true exactly when fewer than \<open>N\<close> of the timestamps held at
  the start or recorded since are less than \<open>W\<close> old. So on a fresh limiter, after \<open>N\<close>
  recorded requests that are all less than \<open>W\<close> old it is false, however the checks were
  interleaved or repeated, and once the clock is \<open>W\<close> past the first of them it is true
  again. After any \<open>canMakeRequest\<close> at time \<open>t'\<close> every retained timestamp \<open>t\<close> has
  \<open>t' - t < W\<close>, so lies in \<open>[t' - W, t']\<close> when no held timestamp is later than the clock.
\<close>

theorem rate_limiter_window:
  assumes earlier: "\<forall>c\<in>set calls. fst c \<le> T"
    and cfg: "maxRequests rl = real N" "windowMs rl = W"
  shows "fst (canMakeRequest T (fold limiter_step calls rl)) =
           (length (filter (\<lambda>time. T - time < W) (requests rl @ recorded calls)) < N) \<and>
         (requests rl = [] \<and> length (recorded calls) = N \<and>
          (\<forall>time\<in>set (recorded calls). T - time < W) \<longrightarrow>
            \<not> fst (canMakeRequest T (fold limiter_step calls rl))) \<and>
         (requests rl = [] \<and> length (recorded calls) = N \<and> recorded calls \<noteq> [] \<and>
          hd (recorded calls) + W \<le> T \<longrightarrow>
            fst (canMakeRequest T (fold limiter_step calls rl))) \<and>
         (\<forall>t'. \<forall>t\<in>set (requests (snd (canMakeRequest t' rl'))).
            t' - t < windowMs rl' \<and>
            ((\<forall>u\<in>set (requests rl'). u \<le> t') \<longrightarrow> t \<in> {t' - windowMs rl'..t'}))"
proof -
  have char: "fst (canMakeRequest T (fold limiter_step calls rl)) =
           (length (filter (\<lambda>time. T - time < W) (requests rl @ recorded calls)) < N)"
    using canMakeRequest_after_calls [OF earlier, of rl]
    unfolding cfg of_nat_less_iff .
  have refuse: "\<not> fst (canMakeRequest T (fold limiter_step calls rl))"
    if fresh: "requests rl = []" and n: "length (recorded calls) = N"
      and young: "\<forall>time\<in>set (recorded calls). T - time < W"
  proof -
    have "filter (\<lambda>time. T - time < W) (recorded calls) = recorded calls"
      using young by (simp add: filter_id_conv)
    with n fresh show ?thesis by (simp add: char)
  qed
  have admit: "fst (canMakeRequest T (fold limiter_step calls rl))"
    if fresh: "requests rl = []" and n: "length (recorded calls) = N"
      and ne: "recorded calls \<noteq> []" and late: "hd (recorded calls) + W \<le> T"
  proof -
    obtain x xs where xs: "recorded calls = x # xs"
      using ne by (cases "recorded calls") auto
    have "filter (\<lambda>time. T - time < W) (recorded calls) = filter (\<lambda>time. T - time < W) xs"
      using late by (simp add: xs)
    then have "length (filter (\<lambda>time. T - time < W) (recorded calls)) \<le> length xs"
      by simp
    also have "\<dots> < N" using n xs by auto
    finally show ?thesis using fresh by (simp add: char)
  qed
  have inv: "\<forall>t'. \<forall>t\<in>set (requests (snd (canMakeRequest t' rl'))).
            t' - t < windowMs rl' \<and>
            ((\<forall>u\<in>set (requests rl'). u \<le> t') \<longrightarrow> t \<in> {t' - windowMs rl'..t'})"
    by (auto simp: canMakeRequest_def Let_def)
  from char refuse admit inv show ?thesis by blast
qed

theorem rate_limiter_window_witness:
  "\<not> fst (canMakeRequest 700 (fold limiter_step check_then_record
            \<lparr>requests = [], maxRequests = 2, windowMs = 1000\<rparr>)) \<and>
   fst (canMakeRequest 1000 (fold limiter_step check_then_record
            \<lparr>requests = [], maxRequests = 2, windowMs = 1000\<rparr>)) \<and>
   requests (snd (canMakeRequest 1000 (fold limiter_step check_then_record
            \<lparr>requests = [], maxRequests = 2, windowMs = 1000\<rparr>))) = [500]"
proof -
  let ?rl = "\<lparr>requests = [], maxRequests = 2, windowMs = 1000\<rparr>"
  have rec: "recorded check_then_record = [0, 500]"
    by (simp add: check_then_record_def)
  have h: "maxRequests ?rl = real 2" "windowMs ?rl = 1000"
    by simp_all
  have e1: "\<forall>c\<in>set check_then_record. fst c \<le> 700"
    and e2: "\<forall>c\<in>set check_then_record. fst c \<le> 1000"
    by (simp_all add: check_then_record_def)
  have a: "requests ?rl = [] \<and> length (recorded check_then_record) = 2 \<and>
           (\<forall>time\<in>set (recorded check_then_record). 700 - time < (1000::real))"
    by (simp add: rec)
  have b: "requests ?rl = [] \<and> length (recorded check_then_record) = 2 \<and>
           recorded check_then_record \<noteq> [] \<and>
           hd (recorded check_then_record) + 1000 \<le> (1000::real)"
    by (simp add: rec)
  have third: "requests (snd (canMakeRequest 1000 (fold limiter_step check_then_record ?rl))) = [500]"
    by (simp add: check_then_record_def canMakeRequest_def recordRequest_def)
  from rate_limiter_window [OF e1 h] a
  have A: "\<not> fst (canMakeRequest 700 (fold limiter_step check_then_record ?rl))" by blast
  from rate_limiter_window [OF e2 h] b
  have B: "fst (canMakeRequest 1000 (fold limiter_step check_then_record ?rl))" by blast
  from A B third show ?thesis by blast
qed

subsection \<open>The request service\<close>

text \<open>
  C1, as amended. With caching enabled and a fresh, non-empty entry for the derived key in
  the cache, the Firebase version returns that entry and leaves the whole state as it
  is; the OpenRouter version does the same provided the daily quota is not exhausted
  (its quota check comes before the lookup), leaving the cache, the rate limiter and the
  invocation count as they are and at most initialising the day's usage record.
\<close>

theorem cache_hit_returns_cached:
  assumes enabled: "useCache_opt options \<noteq> Some False"
    and fresh: "cache w key = Some e" "now w - timestamp e \<le> ttl e"
    and nonempty: "data e \<noteq> []"
  shows "(cacheKey img prompt = Inr key \<longrightarrow>
            redesignRoom env img mime prompt options w = (Inr (data e), w)) \<and>
         (cacheKey_or digest img prompt = Inr key \<and> count (fst (getDailyUsage w)) < int limit \<longrightarrow>
            redesignRoom_or limit digest env' img mime prompt options w =
              (Inr (data e), snd (getDailyUsage w)) \<and>
            rateLimiter (snd (getDailyUsage w)) = rateLimiter w \<and>
            cache (snd (getDailyUsage w)) = cache w \<and>
            invocations (snd (getDailyUsage w)) = invocations w)"
proof -
  have use1: "useCache (merge_redesign DEFAULT_REDESIGN_OPTIONS options)"
    using enabled by (auto simp: merge_redesign_def DEFAULT_REDESIGN_OPTIONS_def split: option.splits)
  have use2: "useCache (merge_redesign DEFAULT_REDESIGN_OPTIONS_or options)"
    using enabled by (auto simp: merge_redesign_def DEFAULT_REDESIGN_OPTIONS_or_def split: option.splits)
  have A: "redesignRoom env img mime prompt options w = (Inr (data e), w)"
    if "cacheKey img prompt = Inr key"
    using that cache_lookup_hit [OF use1 fresh nonempty]
    by (simp add: redesignRoom_def)
  have B: "redesignRoom_or limit digest env' img mime prompt options w =
              (Inr (data e), snd (getDailyUsage w))"
    if k: "cacheKey_or digest img prompt = Inr key" and q: "count (fst (getDailyUsage w)) < int limit"
  proof -
    let ?w0 = "snd (getDailyUsage w)"
    have q0: "checkDailyQuota limit w = (Inr (), ?w0)"
      using q by (simp add: prod_eq_iff checkDailyQuota_fst)
    have "cache ?w0 key = Some e" "now ?w0 - timestamp e \<le> ttl e"
      using fresh by simp_all
    then have "cache_lookup (merge_redesign DEFAULT_REDESIGN_OPTIONS_or options) key ?w0 =
                 (Some (data e), ?w0)"
      using use2 nonempty by (intro cache_lookup_hit)
    then show ?thesis
      by (simp add: redesignRoom_or_def q0 k)
  qed
  from A B show ?thesis by simp
qed

theorem cache_hit_returns_cached_witness:
  "redesignRoom_or DAILY_REQUEST_LIMIT ex_digest env_ok (js ''AAAA'') (js ''image/png'')
       (js ''modern'') no_options hit_world =
     (Inr (js ''artifact-A''), hit_world\<lparr>localStorage := Some \<lparr>date = 0, count = 0\<rparr>\<rparr>) \<and>
   redesignRoom env_internal (js ''AAAA'') (js ''image/png'') (js ''modern'') no_options hit_world2 =
     (Inr (js ''artifact-A''), hit_world2)"
proof -
  let ?e = "\<lparr>data = js ''artifact-A'', timestamp = 0, ttl = 86400000\<rparr>"
  have en: "useCache_opt no_options \<noteq> Some False" by (simp add: no_options_def)
  have ne: "data ?e \<noteq> []" by (simp add: js_def)
  have f1: "cache hit_world ex_key = Some ?e" "now hit_world - timestamp ?e \<le> ttl ?e"
    by (simp_all add: hit_world_def ex_cache_def)
  have q: "count (fst (getDailyUsage hit_world)) < int DAILY_REQUEST_LIMIT"
    by (simp add: getDailyUsage_def hit_world_def DAILY_REQUEST_LIMIT_def Let_def)
  have st: "snd (getDailyUsage hit_world) = hit_world\<lparr>localStorage := Some \<lparr>date = 0, count = 0\<rparr>\<rparr>"
    by (simp add: getDailyUsage_def hit_world_def today_def Let_def)
  have f2: "cache hit_world2 ex_key2 = Some ?e" "now hit_world2 - timestamp ?e \<le> ttl ?e"
    by (simp_all add: hit_world2_def)
  have A: "redesignRoom_or DAILY_REQUEST_LIMIT ex_digest env_ok (js ''AAAA'') (js ''image/png'')
       (js ''modern'') no_options hit_world = (Inr (data ?e), snd (getDailyUsage hit_world))"
    using cache_hit_returns_cached [OF en f1 ne, where digest = ex_digest and img = "js ''AAAA''"
        and prompt = "js ''modern''" and limit = DAILY_REQUEST_LIMIT] ex_key_derived q
    by blast
  have B: "redesignRoom env_internal (js ''AAAA'') (js ''image/png'') (js ''modern'') no_options
       hit_world2 = (Inr (data ?e), hit_world2)"
    using cache_hit_returns_cached [OF en f2 ne, where img = "js ''AAAA''"
        and prompt = "js ''modern''"] ex_key2_derived
    by blast
  from A B st show ?thesis by simp
qed

text \<open>
  The claim as it was stated fails twice. With the daily counter at the limit, the
  OpenRouter version throws \<^verbatim>\<open>DAILY_QUOTA_EXCEEDED\<close> although the cache holds a fresh
  entry for the key; and a fresh entry that is the empty string is not returned: the
  network operation is invoked instead.
\<close>

theorem cache_hit_counterexample:
  "cacheKey_or ex_digest (js ''AAAA'') (js ''modern'') = Inr ex_key \<and>
   cache_get (now exhausted_world) ex_key (cache exhausted_world) =
     (Some (js ''artifact-A''), cache exhausted_world) \<and>
   redesignRoom_or DAILY_REQUEST_LIMIT ex_digest env_ok (js ''AAAA'') (js ''image/png'')
       (js ''modern'') no_options exhausted_world =
     (Inl (Thrown (quota_error DAILY_REQUEST_LIMIT)), exhausted_world) \<and>
   cacheKey (js ''AAAA'') (js ''modern'') = Inr ex_key2 \<and>
   cache_get (now empty_hit_world) ex_key2 (cache empty_hit_world) =
     (Some [], cache empty_hit_world) \<and>
   fst (redesignRoom env_suggest (js ''AAAA'') (js ''image/png'') (js ''modern'') no_options
          empty_hit_world) = Inr (js ''artifact-B'') \<and>
   invocations (snd (redesignRoom env_suggest (js ''AAAA'') (js ''image/png'') (js ''modern'')
          no_options empty_hit_world)) = 1"
proof -
  have q: "checkDailyQuota DAILY_REQUEST_LIMIT exhausted_world =
             (Inl (quota_error DAILY_REQUEST_LIMIT), exhausted_world)"
    by (simp add: checkDailyQuota_def getDailyUsage_def exhausted_world_def today_def
        DAILY_REQUEST_LIMIT_def)
  have r: "redesignRoom_or DAILY_REQUEST_LIMIT ex_digest env_ok (js ''AAAA'')
       (js ''image/png'') (js ''modern'') no_options exhausted_world =
     (Inl (Thrown (quota_error DAILY_REQUEST_LIMIT)), exhausted_world)"
    by (simp add: redesignRoom_or_def q)
  have c: "cache_get (now exhausted_world) ex_key (cache exhausted_world) =
     (Some (js ''artifact-A''), cache exhausted_world)"
    by (simp add: cache_get_def exhausted_world_def ex_cache_def)
  have c2: "cache_get (now empty_hit_world) ex_key2 (cache empty_hit_world) =
     (Some [], cache empty_hit_world)"
    by (simp add: cache_get_def empty_hit_world_def)
  have r2: "redesignRoom env_suggest (js ''AAAA'') (js ''image/png'') (js ''modern'') no_options
          empty_hit_world =
      (Inr (js ''artifact-B''),
       \<lparr>now = 1250,
        cache = Map.empty(ex_key2 \<mapsto> \<lparr>data = js ''artifact-B'', timestamp = 1250, ttl = 86400000\<rparr>),
        rateLimiter = new_RateLimiter, localStorage = None, invocations = 1\<rparr>)"
    by (simp add: run_defs ex_key2_derived empty_hit_world_def env_suggest_def)
       (simp add: js_def)
  show ?thesis using ex_key_derived ex_key2_derived r c c2 r2 by simp
qed

text \<open>
  C2. The key is a function of the image and the prompt, but it does not tell prompts
  apart as claimed: two style presets of the application that share their first 15
  characters get the same key in the Firebase version, and in the OpenRouter version,
  where the encoded prompt starts with the fixed text \<^verbatim>\<open>Transform this room with: \<close>,
  every prompt gets the same key.
\<close>

theorem cacheKey_collides:
  "cacheKey img (js ''Transform into a modern minimalist space with clean lines, neutral color palette (white, beige, grey), minimal furniture, hidden storage, and plenty of negative space'') =
     Inr (js ''room-redesign:'' @ take 100 img @ js '':VHJhbnNmb3JtIGludG8g'') \<and>
   cacheKey img (js ''Transform into rustic farmhouse style with reclaimed wood, shiplap walls, vintage furniture, cozy textiles, warm earth tones, farmhouse sink, and countryside charm'') =
     Inr (js ''room-redesign:'' @ take 100 img @ js '':VHJhbnNmb3JtIGludG8g'') \<and>
   cacheKey_or digest img (js ''modern'') =
     Inr (js ''room-redesign:'' @ generateImageHash_or digest img @ js '':VHJhbnNmb3JtIHRoaXMg'') \<and>
   cacheKey_or digest img (js ''rustic'') =
     Inr (js ''room-redesign:'' @ generateImageHash_or digest img @ js '':VHJhbnNmb3JtIHRoaXMg'')"
  by (simp add: cacheKey_def cacheKey_or_def btoa_def js_def createOptimizedPrompt_def
      createCacheKey_def generateImageHash_def b64char_def)

text \<open>
  C8. In the OpenRouter version, when the stored counter of the day has reached the
  limit, the call throws the non-retryable \<^verbatim>\<open>DAILY_QUOTA_EXCEEDED\<close> error and leaves
  the state (rate limiter, cache, invocation count) as it is. And when a request that
  went to the network succeeds and takes the counter to the limit, any further request
  on that day fails in this way; with a limit of 1 that is the second request.
\<close>

theorem daily_quota_fails_fast:
  "(localStorage w = Some u \<and> date u = today (now w) \<and> int limit \<le> count u \<longrightarrow>
      redesignRoom_or limit digest env img mime prompt options w =
        (Inl (Thrown (quota_error limit)), w) \<and>
      (\<exists>m. quota_error limit = APIError m (Some 429) (Some (js ''DAILY_QUOTA_EXCEEDED'')) False)) \<and>
   (redesignRoom_or limit digest env img1 mime1 prompt1 options1 w = (Inr r1, w1) \<and>
    invocations w1 \<noteq> invocations w \<and>
    int limit \<le> count (fst (getDailyUsage w)) + 1 \<and>
    today (now w1) = today (now w) \<and> today t2 = today (now w) \<longrightarrow>
      redesignRoom_or limit digest env img2 mime2 prompt2 options2 (w1\<lparr>now := t2\<rparr>) =
        (Inl (Thrown (quota_error limit)), w1\<lparr>now := t2\<rparr>))"
proof -
  have A: "redesignRoom_or limit digest env img mime prompt options w =
        (Inl (Thrown (quota_error limit)), w)"
    if "localStorage w = Some u" "date u = today (now w)" "int limit \<le> count u"
    for w u img mime prompt options
    using that by (simp add: redesignRoom_or_def checkDailyQuota_def getDailyUsage_same_day)
  have code: "\<exists>m. quota_error limit = APIError m (Some 429) (Some (js ''DAILY_QUOTA_EXCEEDED'')) False"
    by (simp add: quota_error_def)
  have B: "redesignRoom_or limit digest env img2 mime2 prompt2 options2 (w1\<lparr>now := t2\<rparr>) =
        (Inl (Thrown (quota_error limit)), w1\<lparr>now := t2\<rparr>)"
    if run: "redesignRoom_or limit digest env img1 mime1 prompt1 options1 w = (Inr r1, w1)"
      and inv: "invocations w1 \<noteq> invocations w"
      and last: "int limit \<le> count (fst (getDailyUsage w)) + 1"
      and day1: "today (now w1) = today (now w)" and day2: "today t2 = today (now w)"
  proof -
    let ?config = "merge_redesign DEFAULT_REDESIGN_OPTIONS_or options1"
    let ?u0 = "fst (getDailyUsage w)"
    from run inv obtain key wa wb wc r where
      look: "cache_lookup ?config key (snd (getDailyUsage w)) = (None, wa)"
      and rate: "checkRateLimit wa = (Inr (), wb)"
      and retry: "withRetry (generateImage env) sleep (only_maxAttempts (maxRetries ?config)) wb = (r, wc)"
      and w1: "w1 = cache_store ?config key r1 (incrementDailyUsage wc)"
      by (rule redesignRoom_or_invoked) auto
    have "localStorage wc = localStorage wb"
      using withRetry_generateImage [OF retry] by simp
    also have "\<dots> = localStorage wa" by (rule checkRateLimit_frame(1) [OF rate])
    also have "\<dots> = localStorage (snd (getDailyUsage w))" by (rule cache_lookup_frame(1) [OF look])
    also have "\<dots> = Some ?u0" by (rule getDailyUsage_stored)
    finally have stc: "localStorage wc = Some ?u0" .
    have nowc: "now w1 = now wc" by (simp add: w1)
    have "date ?u0 = today (now wc)"
      using day1 nowc by (simp add: getDailyUsage_stored)
    with stc have "getDailyUsage wc = (?u0, wc)" by (rule getDailyUsage_same_day)
    then have st1: "localStorage w1 = Some (?u0\<lparr>count := count ?u0 + 1\<rparr>)"
      by (simp add: w1 incrementDailyUsage_def)
    show ?thesis
      by (rule A [where u = "?u0\<lparr>count := count ?u0 + 1\<rparr>"])
         (use st1 day2 last in \<open>simp_all add: getDailyUsage_stored\<close>)
  qed
  from A code B show ?thesis by blast
qed

theorem daily_quota_fails_fast_witness:
  "redesignRoom_or DAILY_REQUEST_LIMIT ex_digest env_ok (js ''AAAA'') (js ''image/png'')
       (js ''modern'') no_options exhausted_world =
     (Inl (Thrown (quota_error DAILY_REQUEST_LIMIT)), exhausted_world) \<and>
   fst (redesignRoom_or 1 ex_digest env_ok (js ''AAAA'') (js ''image/png'') (js ''modern'')
          no_options start_world) = Inr (js ''artifact-B'') \<and>
   fst (redesignRoom_or 1 ex_digest env_ok (js ''BBBBBB'') (js ''image/png'') (js ''rustic'')
          no_options
          (snd (redesignRoom_or 1 ex_digest env_ok (js ''AAAA'') (js ''image/png'') (js ''modern'')
                  no_options start_world)\<lparr>now := 2000\<rparr>)) =
     Inl (Thrown (quota_error 1))"
proof -
  let ?w1 = "\<lparr>now = 1250,
     cache = Map.empty(ex_key \<mapsto> \<lparr>data = js ''artifact-B'', timestamp = 1250, ttl = 86400000\<rparr>),
     rateLimiter = \<lparr>requests = [1000], maxRequests = 10, windowMs = 60000\<rparr>,
     localStorage = Some \<lparr>date = 0, count = 1\<rparr>, invocations = 1\<rparr>"
  have a: "localStorage exhausted_world = Some \<lparr>date = 0, count = 5\<rparr> \<and>
           date \<lparr>date = 0, count = 5\<rparr> = today (now exhausted_world) \<and>
           int DAILY_REQUEST_LIMIT \<le> count \<lparr>date = 0, count = 5\<rparr>"
    by (simp add: exhausted_world_def today_def DAILY_REQUEST_LIMIT_def)
  have b: "redesignRoom_or 1 ex_digest env_ok (js ''AAAA'') (js ''image/png'') (js ''modern'')
             no_options start_world = (Inr (js ''artifact-B''), ?w1) \<and>
           invocations ?w1 \<noteq> invocations start_world \<and>
           int 1 \<le> count (fst (getDailyUsage start_world)) + 1 \<and>
           today (now ?w1) = today (now start_world) \<and> today 2000 = today (now start_world)"
    by (rule conjI [OF first_run]) (simp add: start_world_def getDailyUsage_def today_def Let_def)
  note T = daily_quota_fails_fast [where w = exhausted_world and u = "\<lparr>date = 0, count = 5\<rparr>"
      and limit = DAILY_REQUEST_LIMIT and digest = ex_digest and env = env_ok and img = "js ''AAAA''"
      and mime = "js ''image/png''" and prompt = "js ''modern''" and options = no_options]
  note U = daily_quota_fails_fast [where limit = 1 and digest = ex_digest and env = env_ok
      and ?img1.0 = "js ''AAAA''" and ?mime1.0 = "js ''image/png''" and ?prompt1.0 = "js ''modern''"
      and ?options1.0 = no_options and w = start_world and ?r1.0 = "js ''artifact-B''"
      and ?w1.0 = ?w1 and ?t2.0 = 2000 and ?img2.0 = "js ''BBBBBB''"
      and ?mime2.0 = "js ''image/png''" and ?prompt2.0 = "js ''rustic''" and ?options2.0 = no_options]
  from T a have A: "redesignRoom_or DAILY_REQUEST_LIMIT ex_digest env_ok (js ''AAAA'')
       (js ''image/png'') (js ''modern'') no_options exhausted_world =
     (Inl (Thrown (quota_error DAILY_REQUEST_LIMIT)), exhausted_world)"
    by blast
  from U b have B: "redesignRoom_or 1 ex_digest env_ok (js ''BBBBBB'') (js ''image/png'')
       (js ''rustic'') no_options (?w1\<lparr>now := 2000\<rparr>) =
     (Inl (Thrown (quota_error 1)), ?w1\<lparr>now := 2000\<rparr>)"
    by blast
  from A B b show ?thesis by simp
qed




end
